theory Spec2Isabelle
  imports Complex_Main "HOL-Library.AList"
begin

section \<open>Data model\<close>

text \<open>
  The forecasting service keeps its historical readings in a pandas DataFrame with a
  DatetimeIndex. A frame is modelled column-wise, as pandas stores it: the index (one
  timestamp per row) and an ordered association list from column name to the column's
  values. A cell is a float; \<open>None\<close> stands for NaN, and arithmetic on the other cells
  is the arithmetic of the reals (rounding is not modelled). A timestamp is the number of
  nanoseconds since 1970-01-01T00:00 (pandas' int64 representation), read in UTC.
\<close>

type_synonym cell = "real option"
type_synonym timestamp = int

record frame =
  index :: "timestamp list"
  cols :: "(string \<times> cell list) list"

datatype error =
    KeyError string
  | IndexError
  | OutOfBoundsDatetime
  | ModelError string
  | DataNotLoaded
  | DataOrModelMissing

definition bind_err :: "error + 'a \<Rightarrow> ('a \<Rightarrow> error + 'b) \<Rightarrow> error + 'b" where
  "bind_err r k = (case r of Inl e \<Rightarrow> Inl e | Inr x \<Rightarrow> k x)"

definition nrows :: "frame \<Rightarrow> nat" where
  "nrows f = length (index f)"

definition columns :: "frame \<Rightarrow> string list" where
  "columns f = map fst (cols f)"


subsection \<open>The pandas operations the service uses\<close>

text \<open>\<open>df[c]\<close>: the column named \<open>c\<close>, KeyError when there is none.\<close>

definition get_col :: "frame \<Rightarrow> string \<Rightarrow> error + cell list" where
  "get_col f c = (case map_of (cols f) c of None \<Rightarrow> Inl (KeyError c) | Some xs \<Rightarrow> Inr xs)"

text \<open>\<open>df[c] = values\<close>: replaces the column in place when it exists, appends it as the
  last column otherwise.\<close>

definition set_col :: "string \<Rightarrow> cell list \<Rightarrow> frame \<Rightarrow> frame" where
  "set_col c xs f = f\<lparr>cols := AList.update c xs (cols f)\<rparr>"

text \<open>\<open>df[c] = scalar\<close>: the scalar is broadcast to every row.\<close>

definition set_col_scalar :: "string \<Rightarrow> cell \<Rightarrow> frame \<Rightarrow> frame" where
  "set_col_scalar c v f = set_col c (replicate (nrows f) v) f"

text \<open>\<open>xs[-n:]\<close> on a sequence: the last \<open>n\<close> elements, all of them when there are fewer
  (and all of them for \<open>n = 0\<close>, since \<open>-0\<close> is \<open>0\<close>).\<close>

definition tail_slice :: "nat \<Rightarrow> 'a list \<Rightarrow> 'a list" where
  "tail_slice n xs = (if n = 0 then xs else drop (length xs - n) xs)"

text \<open>\<open>df.iloc[-n:]\<close>: the last \<open>n\<close> rows, every column kept.\<close>

definition iloc_tail :: "nat \<Rightarrow> frame \<Rightarrow> frame" where
  "iloc_tail n f =
     \<lparr>index = tail_slice n (index f),
      cols = map (\<lambda>(c, xs). (c, tail_slice n xs)) (cols f)\<rparr>"

text \<open>\<open>df[[c1, ..., ck]]\<close>: the listed columns in the listed order, KeyError at the first
  name that is not a column.\<close>

fun select_cols :: "string list \<Rightarrow> frame \<Rightarrow> error + (string \<times> cell list) list" where
  "select_cols [] f = Inr []"
| "select_cols (c # cs) f =
     bind_err (get_col f c) (\<lambda>xs.
     bind_err (select_cols cs f) (\<lambda>rest. Inr ((c, xs) # rest)))"

definition select :: "string list \<Rightarrow> frame \<Rightarrow> error + frame" where
  "select cs f = bind_err (select_cols cs f) (\<lambda>sel. Inr \<lparr>index = index f, cols = sel\<rparr>)"

text \<open>\<open>xs.iloc[-1]\<close> and \<open>index[-1]\<close>: the last element, IndexError on an empty sequence.\<close>

definition last_elem :: "'a list \<Rightarrow> error + 'a" where
  "last_elem xs = (if xs = [] then Inl IndexError else Inr (last xs))"

text \<open>\<open>a[0]\<close> on an array: the first element, IndexError on an empty one.\<close>

definition first_elem :: "'a list \<Rightarrow> error + 'a" where
  "first_elem xs = (case xs of [] \<Rightarrow> Inl IndexError | x # _ \<Rightarrow> Inr x)"

text \<open>\<open>pd.concat([f, g])\<close>: the rows of \<open>g\<close> under the rows of \<open>f\<close>. The columns are the
  columns of \<open>f\<close> followed by those only \<open>g\<close> has; a column one side lacks is filled
  with NaN on that side.\<close>

definition concat_frames :: "frame \<Rightarrow> frame \<Rightarrow> frame" where
  "concat_frames f g =
     \<lparr>index = index f @ index g,
      cols =
        map (\<lambda>(c, xs). (c, xs @ (case map_of (cols g) c of
                                    Some ys \<Rightarrow> ys
                                  | None \<Rightarrow> replicate (nrows g) None))) (cols f)
        @ map (\<lambda>(c, ys). (c, replicate (nrows f) None @ ys))
            (filter (\<lambda>(c, ys). c \<notin> set (columns f)) (cols g))\<rparr>"

text \<open>\<open>s.shift(k)\<close>: every value moves \<open>k\<close> rows down; the first \<open>k\<close> rows become NaN.\<close>

definition shift :: "nat \<Rightarrow> cell list \<Rightarrow> cell list" where
  "shift k xs = replicate (min k (length xs)) None @ take (length xs - k) xs"

text \<open>The mean of a window: NaN as soon as one value of the window is NaN.\<close>

definition mean_cells :: "cell list \<Rightarrow> cell" where
  "mean_cells xs =
     (if None \<in> set xs then None else Some (sum_list (map the xs) / real (length xs)))"

text \<open>\<open>s.rolling(window=w).mean()\<close>: at row \<open>i\<close> the mean of the \<open>w\<close> rows ending at
  \<open>i\<close> (row \<open>i\<close> included); NaN while fewer than \<open>w\<close> rows are available
  (\<open>min_periods\<close> defaults to the window).\<close>

definition rolling_mean :: "nat \<Rightarrow> cell list \<Rightarrow> cell list" where
  "rolling_mean w xs =
     map (\<lambda>i. if i + 1 < w then None else mean_cells (take w (drop (i + 1 - w) xs)))
       [0..<length xs]"

subsection \<open>Calendar fields of a timestamp\<close>

text \<open>The accessors of a DatetimeIndex, for the proleptic Gregorian calendar. Day 0 is
  1970-01-01, a Thursday; pandas counts Monday as day of week 0.\<close>

definition ns_per_hour :: int where
  "ns_per_hour = 3600000000000"

definition ns_per_day :: int where
  "ns_per_day = 24 * ns_per_hour"

definition days_of :: "timestamp \<Rightarrow> int" where
  "days_of t = t div ns_per_day"

definition hour_of :: "timestamp \<Rightarrow> int" where
  "hour_of t = (t div ns_per_hour) mod 24"

definition dayofweek_of :: "timestamp \<Rightarrow> int" where
  "dayofweek_of t = (days_of t + 3) mod 7"

text \<open>Year, month and day of a day number, counting the years from March so that the leap
  day is the last day of its year.\<close>

definition civil_of_days :: "int \<Rightarrow> int \<times> int \<times> int" where
  "civil_of_days z0 =
     (let z = z0 + 719468;
          era = z div 146097;
          doe = z - era * 146097;
          yoe = (doe - doe div 1460 + doe div 36524 - doe div 146096) div 365;
          doy = doe - (365 * yoe + yoe div 4 - yoe div 100);
          mp = (5 * doy + 2) div 153;
          d = doy - (153 * mp + 2) div 5 + 1;
          m = (if mp < 10 then mp + 3 else mp - 9);
          y = yoe + era * 400 + (if m \<le> 2 then 1 else 0)
      in (y, m, d))"

definition days_of_civil :: "int \<Rightarrow> int \<Rightarrow> int \<Rightarrow> int" where
  "days_of_civil y0 m d =
     (let y = (if m \<le> 2 then y0 - 1 else y0);
          era = y div 400;
          yoe = y - era * 400;
          doy = (153 * (if m > 2 then m - 3 else m + 9) + 2) div 5 + d - 1;
          doe = yoe * 365 + yoe div 4 - yoe div 100 + doy
      in era * 146097 + doe - 719468)"

definition year_of :: "timestamp \<Rightarrow> int" where
  "year_of t = fst (civil_of_days (days_of t))"

definition month_of :: "timestamp \<Rightarrow> int" where
  "month_of t = fst (snd (civil_of_days (days_of t)))"

definition quarter_of :: "timestamp \<Rightarrow> int" where
  "quarter_of t = (month_of t - 1) div 3 + 1"

definition dayofyear_of :: "timestamp \<Rightarrow> int" where
  "dayofyear_of t = days_of t - days_of_civil (year_of t) 1 1 + 1"

definition int_col :: "(timestamp \<Rightarrow> int) \<Rightarrow> frame \<Rightarrow> cell list" where
  "int_col field f = map (\<lambda>t. Some (real_of_int (field t))) (index f)"

section \<open>Configuration (app.py, app_enhanced.py)\<close>

definition TARGET_COLUMN :: string where
  "TARGET_COLUMN = ''Phase3_power''"

definition N_LOOKBACK :: nat where
  "N_LOOKBACK = 72"

definition FEATURES_LSTM :: "string list" where
  "FEATURES_LSTM =
     [''Phase2_current'', ''Phase2_voltage'', ''Phase3_frequency'',
      ''Phase3_pf'', ''Phase3_power'', ''Phase3_voltage'']"

definition FEATURES_XGB :: "string list" where
  "FEATURES_XGB =
     [''Phase2_current'', ''Phase2_voltage'', ''Phase3_frequency'', ''Phase3_pf'',
      ''Phase3_voltage'',
      ''hour'', ''dayofweek'', ''month'', ''quarter'', ''year'', ''dayofyear'',
      TARGET_COLUMN @ ''_lag_1h'', TARGET_COLUMN @ ''_lag_3h'', TARGET_COLUMN @ ''_lag_24h'',
      TARGET_COLUMN @ ''_roll_avg_3h'', TARGET_COLUMN @ ''_roll_avg_6h'',
      TARGET_COLUMN @ ''_roll_avg_24h'']"

definition CRITICAL_LOAD_THRESHOLD :: nat where
  "CRITICAL_LOAD_THRESHOLD = 500"

section \<open>Feature derivation: \<open>create_features_xgb\<close>\<close>

text \<open>The function works on a copy of its argument. The six calendar columns are written
  first; the first read of \<open>df_copy[target_col]\<close> raises KeyError when the target column
  is missing. Every later read of the target column sees the columns written before it,
  as in the source.\<close>

definition create_features_xgb :: "frame \<Rightarrow> string \<Rightarrow> error + frame" where
  "create_features_xgb df target_col =
     (let d0 = df;
          d1 = set_col ''hour'' (int_col hour_of d0) d0;
          d2 = set_col ''dayofweek'' (int_col dayofweek_of d1) d1;
          d3 = set_col ''month'' (int_col month_of d2) d2;
          d4 = set_col ''quarter'' (int_col quarter_of d3) d3;
          d5 = set_col ''year'' (int_col year_of d4) d4;
          d6 = set_col ''dayofyear'' (int_col dayofyear_of d5) d5
      in bind_err (get_col d6 target_col) (\<lambda>t1.
         let d7 = set_col (target_col @ ''_lag_1h'') (shift 1 t1) d6
         in bind_err (get_col d7 target_col) (\<lambda>t2.
         let d8 = set_col (target_col @ ''_lag_3h'') (shift 3 t2) d7
         in bind_err (get_col d8 target_col) (\<lambda>t3.
         let d9 = set_col (target_col @ ''_lag_24h'') (shift 24 t3) d8
         in bind_err (get_col d9 target_col) (\<lambda>t4.
         let d10 = set_col (target_col @ ''_roll_avg_3h'') (shift 1 (rolling_mean 3 t4)) d9
         in bind_err (get_col d10 target_col) (\<lambda>t5.
         let d11 = set_col (target_col @ ''_roll_avg_6h'') (shift 1 (rolling_mean 6 t5)) d10
         in bind_err (get_col d11 target_col) (\<lambda>t6.
         let d12 = set_col (target_col @ ''_roll_avg_24h'') (shift 1 (rolling_mean 24 t6)) d11
         in Inr d12)))))))"

section \<open>The fitted models\<close>

text \<open>The three regressors and the two scalers are loaded from files the repository does
  not hold; the service only calls them. They are parameters of the model: each call
  returns an array or raises. \<open>model_xgb\<close> and \<open>model_fusion\<close> take a frame and return one
  prediction per row, \<open>scaler_x\<close> turns the window into a matrix, \<open>model_lstm\<close> takes a
  batch of matrices, and \<open>scaler_y_inv\<close> is \<open>scaler_y.inverse_transform\<close>.\<close>

record models =
  model_xgb :: "frame \<Rightarrow> error + cell list"
  scaler_x :: "frame \<Rightarrow> error + cell list list"
  model_lstm :: "cell list list list \<Rightarrow> error + cell list list"
  scaler_y_inv :: "cell list list \<Rightarrow> error + cell list list"
  model_fusion :: "frame \<Rightarrow> error + cell list"

section \<open>The 24-hour forecast: \<open>get_hourly_forecast\<close>\<close>

record forecast =
  timestamp :: timestamp
  predicted_power :: cell

text \<open>\<open>base_data[FEATURES_LSTM].iloc[-N_LOOKBACK:]\<close>, the window handed to the sequence
  regressor.\<close>

definition lstm_window :: "frame \<Rightarrow> error + frame" where
  "lstm_window base_data =
     bind_err (select FEATURES_LSTM base_data) (\<lambda>f. Inr (iloc_tail N_LOOKBACK f))"

text \<open>\<open>pd.DataFrame({'xgb_pred': [pred_xgb], 'lstm_pred': [pred_lstm]})\<close>, one row with
  the default index.\<close>

definition X_meta :: "cell \<Rightarrow> cell \<Rightarrow> frame" where
  "X_meta pred_xgb pred_lstm =
     \<lparr>index = [0], cols = [(''xgb_pred'', [pred_xgb]), (''lstm_pred'', [pred_lstm])]\<rparr>"

text \<open>The prediction of one iteration, from the rolling table and its derived features
  (the loop body from \<open>.iloc[-1:]\<close> to \<open>pred_fusion\<close>).\<close>

definition predict_with :: "models \<Rightarrow> frame \<Rightarrow> frame \<Rightarrow> error + cell" where
  "predict_with m base_data feats =
     (let current_data_xgb = iloc_tail 1 feats
      in bind_err (lstm_window base_data) (\<lambda>current_data_lstm_raw.
         bind_err (select FEATURES_XGB current_data_xgb) (\<lambda>X_xgb.
         bind_err (model_xgb m X_xgb) (\<lambda>preds_xgb.
         bind_err (first_elem preds_xgb) (\<lambda>pred_xgb.
         bind_err (scaler_x m current_data_lstm_raw) (\<lambda>X_lstm_scaled.
         bind_err (model_lstm m [X_lstm_scaled]) (\<lambda>pred_lstm_scaled.
         bind_err (scaler_y_inv m pred_lstm_scaled) (\<lambda>inv.
         bind_err (first_elem inv) (\<lambda>inv0.
         bind_err (first_elem inv0) (\<lambda>pred_lstm.
         bind_err (model_fusion m (X_meta pred_xgb pred_lstm)) (\<lambda>preds_fusion.
         first_elem preds_fusion)))))))))))"

definition predict_next :: "models \<Rightarrow> frame \<Rightarrow> error + cell" where
  "predict_next m base_data =
     bind_err (create_features_xgb base_data TARGET_COLUMN) (\<lambda>feats.
     predict_with m base_data feats)"

text \<open>\<open>ts + pd.Timedelta(hours=1)\<close>: pandas raises when the sum leaves the int64 range.\<close>

definition timestamp_max :: int where
  "timestamp_max = 9223372036854775807"

definition add_hour :: "timestamp \<Rightarrow> error + timestamp" where
  "add_hour t =
     (if t + ns_per_hour > timestamp_max then Inl OutOfBoundsDatetime
      else Inr (t + ns_per_hour))"

text \<open>The loop over \<open>new_row.columns\<close>: every column but the target is overwritten with
  the last value that column has in \<open>base_data\<close>.\<close>

fun carry_forward :: "string list \<Rightarrow> frame \<Rightarrow> frame \<Rightarrow> error + frame" where
  "carry_forward [] base_data new_row = Inr new_row"
| "carry_forward (col # rest) base_data new_row =
     (if col \<noteq> TARGET_COLUMN then
        bind_err (get_col base_data col) (\<lambda>xs.
        bind_err (last_elem xs) (\<lambda>v.
        carry_forward rest base_data (set_col_scalar col v new_row)))
      else carry_forward rest base_data new_row)"

text \<open>The synthesized row: a copy of the last row of \<open>base_data\<close>, re-indexed at the next
  timestamp, with the target set to the fused prediction.\<close>

definition synth_row :: "frame \<Rightarrow> timestamp \<Rightarrow> cell \<Rightarrow> error + frame" where
  "synth_row base_data next_timestamp pred_fusion =
     (let new_row0 = iloc_tail 1 base_data;
          new_row1 = new_row0\<lparr>index := [next_timestamp]\<rparr>;
          new_row2 = set_col_scalar TARGET_COLUMN pred_fusion new_row1
      in carry_forward (columns new_row2) base_data new_row2)"

text \<open>One iteration of the loop: the forecast entry it appends and the new rolling table.\<close>

definition rollout_step :: "models \<Rightarrow> frame \<Rightarrow> error + (forecast \<times> frame)" where
  "rollout_step m base_data =
     bind_err (predict_next m base_data) (\<lambda>pred_fusion.
     bind_err (last_elem (index base_data)) (\<lambda>last_timestamp.
     bind_err (add_hour last_timestamp) (\<lambda>next_timestamp.
     bind_err (synth_row base_data next_timestamp pred_fusion) (\<lambda>new_row.
     Inr (\<lparr>timestamp = next_timestamp, predicted_power = pred_fusion\<rparr>,
          concat_frames base_data new_row)))))"

text \<open>\<open>for _ in range(n)\<close>, with the rolling table and the results collected so far. An
  exception in an iteration leaves the loop and the collected results behind.\<close>

fun rollout_loop :: "models \<Rightarrow> nat \<Rightarrow> frame \<Rightarrow> forecast list \<Rightarrow> error + forecast list" where
  "rollout_loop m 0 base_data forecast_results = Inr forecast_results"
| "rollout_loop m (Suc n) base_data forecast_results =
     bind_err (rollout_step m base_data) (\<lambda>(entry, base_data').
     rollout_loop m n base_data' (forecast_results @ [entry]))"

text \<open>The endpoint of app.py. \<open>full_data\<close> is \<open>None\<close> when the CSV could not be read. The
  result is the list the endpoint serialises, or the exception its \<open>except\<close> clause turns
  into the 500 response.\<close>

definition get_hourly_forecast :: "models \<Rightarrow> frame option \<Rightarrow> error + forecast list" where
  "get_hourly_forecast m full_data =
     (case full_data of
        None \<Rightarrow> Inl DataNotLoaded
      | Some fd \<Rightarrow> rollout_loop m 24 (iloc_tail 96 fd) [])"

text \<open>The endpoint of app_enhanced.py: the same loop behind a guard that also refuses
  when the models were not loaded (the loader sets all five to \<open>None\<close> together).\<close>

definition get_hourly_forecast_enhanced ::
    "models option \<Rightarrow> frame option \<Rightarrow> error + forecast list" where
  "get_hourly_forecast_enhanced ms full_data =
     (case (full_data, ms) of
        (Some fd, Some m) \<Rightarrow> rollout_loop m 24 (iloc_tail 96 fd) []
      | _ \<Rightarrow> Inl DataOrModelMissing)"

text \<open>The rolling table after \<open>k\<close> iterations, when none of them failed.\<close>

fun rolling_table :: "models \<Rightarrow> nat \<Rightarrow> frame \<Rightarrow> error + frame" where
  "rolling_table m 0 base_data = Inr base_data"
| "rolling_table m (Suc k) base_data =
     bind_err (rollout_step m base_data) (\<lambda>(entry, base_data'). rolling_table m k base_data')"

section \<open>The alert check: \<open>check_alerts\<close>\<close>

record alert =
  alert_timestamp :: "timestamp option"
  level :: string
  alert_id :: "string option"
  message :: string

function show_nat :: "nat \<Rightarrow> string" where
  "show_nat n =
     (if n < 10 then [char_of (48 + n)]
      else show_nat (n div 10) @ [char_of (48 + n mod 10)])"
  by pat_completeness auto
termination
  by (relation "measure id") auto

definition demo_message :: string where
  "demo_message =
     ''Demo Alert: Predicted load 512.5 MW exceeds '' @ show_nat CRITICAL_LOAD_THRESHOLD
       @ '' MW threshold.''"

text \<open>The endpoint of app.py. It takes no forecast; \<open>now\<close> is the reading of the clock.\<close>

definition check_alerts :: "timestamp \<Rightarrow> alert list" where
  "check_alerts now =
     [\<lparr>alert_timestamp = Some (now + 4 * ns_per_hour), level = ''critical'',
       alert_id = Some ''alert-1'', message = demo_message\<rparr>]"

text \<open>The endpoint of app_enhanced.py: \<open>forecast_data\<close> is the empty list the source
  assigns, so the demo alert is appended on every call with data loaded.\<close>

definition check_alerts_enhanced :: "frame option \<Rightarrow> timestamp \<Rightarrow> alert list" where
  "check_alerts_enhanced full_data now =
     (if full_data = None then
        [\<lparr>alert_timestamp = None, level = ''error'', alert_id = None,
          message = ''Cannot check alerts, data not loaded.''\<rparr>]
      else
        (let forecast_data = ([] :: forecast list);
             alerts = []
         in if forecast_data = [] then
              alerts @ [\<lparr>alert_timestamp = Some (now + 4 * ns_per_hour), level = ''critical'',
                         alert_id = None, message = demo_message\<rparr>]
            else alerts))"

section \<open>The same operations on a store of objects\<close>

text \<open>A DataFrame is an object: \<open>full_data\<close> is shared by every request, and the service
  assigns columns and an index in place. To follow which object each assignment changes,
  the store is the list of the frames allocated so far and a reference is a position in
  it. \<open>df.copy()\<close>, \<open>pd.concat\<close> and a copied slice allocate a new object; a column or
  index assignment updates the object it is applied to. The fitted models read the values
  they are given and are not part of the store.\<close>

type_synonym ref = nat
type_synonym store = "frame list"
type_synonym 'a action = "store \<Rightarrow> (error + 'a) \<times> store"

definition return_st :: "'a \<Rightarrow> 'a action" where
  "return_st x h = (Inr x, h)"

definition lift_st :: "error + 'a \<Rightarrow> 'a action" where
  "lift_st r h = (r, h)"

definition bind_st :: "'a action \<Rightarrow> ('a \<Rightarrow> 'b action) \<Rightarrow> 'b action" where
  "bind_st p k h = (case p h of (Inl e, h') \<Rightarrow> (Inl e, h') | (Inr x, h') \<Rightarrow> k x h')"

text \<open>Reading the current value of an object.\<close>

definition read_st :: "ref \<Rightarrow> frame action" where
  "read_st r h = (Inr (h ! r), h)"

text \<open>Allocating a new object holding the given frame.\<close>

definition new_st :: "frame \<Rightarrow> ref action" where
  "new_st f h = (Inr (length h), h @ [f])"

text \<open>\<open>df.copy()\<close>.\<close>

definition copy_st :: "ref \<Rightarrow> ref action" where
  "copy_st r = bind_st (read_st r) new_st"

text \<open>\<open>df.iloc[-n:].copy()\<close>.\<close>

definition iloc_tail_copy_st :: "nat \<Rightarrow> ref \<Rightarrow> ref action" where
  "iloc_tail_copy_st n r = bind_st (read_st r) (\<lambda>f. new_st (iloc_tail n f))"

text \<open>\<open>pd.concat([a, b])\<close>.\<close>

definition concat_st :: "ref \<Rightarrow> ref \<Rightarrow> ref action" where
  "concat_st a b =
     bind_st (read_st a) (\<lambda>f. bind_st (read_st b) (\<lambda>g. new_st (concat_frames f g)))"

text \<open>The in-place assignments: \<open>df[c] = values\<close>, \<open>df[c] = scalar\<close> and
  \<open>df.index = [...]\<close>.\<close>

definition assign_col_st :: "ref \<Rightarrow> string \<Rightarrow> cell list \<Rightarrow> unit action" where
  "assign_col_st r c xs h = (Inr (), h[r := set_col c xs (h ! r)])"

definition assign_scalar_st :: "ref \<Rightarrow> string \<Rightarrow> cell \<Rightarrow> unit action" where
  "assign_scalar_st r c v h = (Inr (), h[r := set_col_scalar c v (h ! r)])"

definition assign_index_st :: "ref \<Rightarrow> timestamp list \<Rightarrow> unit action" where
  "assign_index_st r idx h = (Inr (), h[r := (h ! r)\<lparr>index := idx\<rparr>])"

text \<open>\<open>df[c] = df.index.<field>\<close> and \<open>df[c] = g(df[target_col])\<close>: the right-hand side
  is read from the object, then assigned to it.\<close>

definition assign_field_st :: "ref \<Rightarrow> string \<Rightarrow> (timestamp \<Rightarrow> int) \<Rightarrow> unit action" where
  "assign_field_st r c field =
     bind_st (read_st r) (\<lambda>f. assign_col_st r c (int_col field f))"

definition assign_derived_st ::
    "ref \<Rightarrow> string \<Rightarrow> string \<Rightarrow> (cell list \<Rightarrow> cell list) \<Rightarrow> unit action" where
  "assign_derived_st r c target_col g =
     bind_st (read_st r) (\<lambda>f.
     bind_st (lift_st (get_col f target_col)) (\<lambda>xs. assign_col_st r c (g xs)))"

text \<open>\<open>create_features_xgb\<close>, statement by statement.\<close>

definition create_features_xgb_st :: "ref \<Rightarrow> string \<Rightarrow> ref action" where
  "create_features_xgb_st df target_col =
     bind_st (copy_st df) (\<lambda>df_copy.
     bind_st (assign_field_st df_copy ''hour'' hour_of) (\<lambda>_.
     bind_st (assign_field_st df_copy ''dayofweek'' dayofweek_of) (\<lambda>_.
     bind_st (assign_field_st df_copy ''month'' month_of) (\<lambda>_.
     bind_st (assign_field_st df_copy ''quarter'' quarter_of) (\<lambda>_.
     bind_st (assign_field_st df_copy ''year'' year_of) (\<lambda>_.
     bind_st (assign_field_st df_copy ''dayofyear'' dayofyear_of) (\<lambda>_.
     bind_st (assign_derived_st df_copy (target_col @ ''_lag_1h'') target_col (shift 1)) (\<lambda>_.
     bind_st (assign_derived_st df_copy (target_col @ ''_lag_3h'') target_col (shift 3)) (\<lambda>_.
     bind_st (assign_derived_st df_copy (target_col @ ''_lag_24h'') target_col (shift 24)) (\<lambda>_.
     bind_st (assign_derived_st df_copy (target_col @ ''_roll_avg_3h'') target_col
                (\<lambda>xs. shift 1 (rolling_mean 3 xs))) (\<lambda>_.
     bind_st (assign_derived_st df_copy (target_col @ ''_roll_avg_6h'') target_col
                (\<lambda>xs. shift 1 (rolling_mean 6 xs))) (\<lambda>_.
     bind_st (assign_derived_st df_copy (target_col @ ''_roll_avg_24h'') target_col
                (\<lambda>xs. shift 1 (rolling_mean 24 xs))) (\<lambda>_.
     return_st df_copy)))))))))))))"

text \<open>The loop over \<open>new_row.columns\<close>, assigning into the object \<open>new_row\<close>.\<close>

fun carry_forward_st :: "string list \<Rightarrow> ref \<Rightarrow> ref \<Rightarrow> unit action" where
  "carry_forward_st [] base_data new_row = return_st ()"
| "carry_forward_st (col # rest) base_data new_row =
     (if col \<noteq> TARGET_COLUMN then
        bind_st (read_st base_data) (\<lambda>b.
        bind_st (lift_st (get_col b col)) (\<lambda>xs.
        bind_st (lift_st (last_elem xs)) (\<lambda>v.
        bind_st (assign_scalar_st new_row col v) (\<lambda>_.
        carry_forward_st rest base_data new_row))))
      else carry_forward_st rest base_data new_row)"

text \<open>One iteration of the loop; \<open>base_data\<close> is rebound to the object \<open>pd.concat\<close>
  allocates.\<close>

definition rollout_step_st :: "models \<Rightarrow> ref \<Rightarrow> (forecast \<times> ref) action" where
  "rollout_step_st m base_data =
     bind_st (create_features_xgb_st base_data TARGET_COLUMN) (\<lambda>feats.
     bind_st (read_st feats) (\<lambda>feats_now.
     bind_st (read_st base_data) (\<lambda>base_now.
     bind_st (lift_st (predict_with m base_now feats_now)) (\<lambda>pred_fusion.
     bind_st (lift_st (last_elem (index base_now))) (\<lambda>last_timestamp.
     bind_st (lift_st (add_hour last_timestamp)) (\<lambda>next_timestamp.
     bind_st (iloc_tail_copy_st 1 base_data) (\<lambda>new_row.
     bind_st (assign_index_st new_row [next_timestamp]) (\<lambda>_.
     bind_st (assign_scalar_st new_row TARGET_COLUMN pred_fusion) (\<lambda>_.
     bind_st (read_st new_row) (\<lambda>new_row_now.
     bind_st (carry_forward_st (columns new_row_now) base_data new_row) (\<lambda>_.
     bind_st (concat_st base_data new_row) (\<lambda>base_data'.
     return_st (\<lparr>timestamp = next_timestamp, predicted_power = pred_fusion\<rparr>,
                base_data')))))))))))))"

fun rollout_loop_st :: "models \<Rightarrow> nat \<Rightarrow> ref \<Rightarrow> forecast list \<Rightarrow> (forecast list) action" where
  "rollout_loop_st m 0 base_data forecast_results = return_st forecast_results"
| "rollout_loop_st m (Suc n) base_data forecast_results =
     bind_st (rollout_step_st m base_data) (\<lambda>(entry, base_data').
     rollout_loop_st m n base_data' (forecast_results @ [entry]))"

text \<open>The endpoint of app.py on the store: \<open>full_data\<close> is \<open>None\<close> or a reference to the
  historical table.\<close>

definition get_hourly_forecast_st :: "models \<Rightarrow> ref option \<Rightarrow> (forecast list) action" where
  "get_hourly_forecast_st m full_data =
     (case full_data of
        None \<Rightarrow> lift_st (Inl DataNotLoaded)
      | Some fd \<Rightarrow>
          bind_st (iloc_tail_copy_st 96 fd) (\<lambda>base_data. rollout_loop_st m 24 base_data []))"

text \<open>The endpoint of app_enhanced.py on the store.\<close>

definition get_hourly_forecast_enhanced_st ::
    "models option \<Rightarrow> ref option \<Rightarrow> (forecast list) action" where
  "get_hourly_forecast_enhanced_st ms full_data =
     (case (full_data, ms) of
        (Some fd, Some m) \<Rightarrow>
          bind_st (iloc_tail_copy_st 96 fd) (\<lambda>base_data. rollout_loop_st m 24 base_data [])
      | _ \<Rightarrow> lift_st (Inl DataOrModelMissing))"

section \<open>Sample tables and models\<close>

text \<open>Models that answer every call: each regressor returns the value \<open>v\<close> once per input
  row, the input scaler returns the window as a matrix of rows, and the output scaler
  returns its argument.\<close>

definition const_models :: "real \<Rightarrow> models" where
  "const_models v =
     \<lparr>model_xgb = (\<lambda>X. Inr (map (\<lambda>_. Some v) (index X))),
      scaler_x = (\<lambda>W. Inr (transpose (map snd (cols W)))),
      model_lstm = (\<lambda>B. Inr (map (\<lambda>_. [Some v]) B)),
      scaler_y_inv = (\<lambda>A. Inr A),
      model_fusion = (\<lambda>X. Inr (map (\<lambda>_. Some v) (index X)))\<rparr>"

text \<open>The same models, but the tree regressor raises when the one-hour lag it is given
  is \<open>v\<close>. The lag of the last row is the reading before it, so on a table whose last two
  readings are not \<open>v\<close> the first two iterations succeed and the third one fails.\<close>

definition fragile_models :: "real \<Rightarrow> models" where
  "fragile_models v =
     (const_models v)
       \<lparr>model_xgb := (\<lambda>X. if get_col X (TARGET_COLUMN @ ''_lag_1h'') = Inr [Some v]
                           then Inl (ModelError ''xgboost'')
                           else Inr (map (\<lambda>_. Some v) (index X)))\<rparr>"

text \<open>Two hourly rows from 1970-01-01T00:00 with the six sequence channels and one more
  column, and a four-row table that has the target column only.\<close>

definition two_row_table :: frame where
  "two_row_table =
     \<lparr>index = [0, 3600000000000],
      cols = [(''Phase2_current'', [Some 1, Some 2]),
              (''Phase2_voltage'', [Some 230, Some 231]),
              (''Phase3_frequency'', [Some 50, Some 50]),
              (''Phase3_pf'', [Some 1, None]),
              (''Phase3_power'', [Some 300, Some 310]),
              (''Phase3_voltage'', [Some 229, Some 228]),
              (''Phase1_power'', [Some 11, Some 12])]\<rparr>"

definition power_only_table :: frame where
  "power_only_table =
     \<lparr>index = [0, 3600000000000, 7200000000000, 10800000000000],
      cols = [(''Phase3_power'', [Some 300, Some 310, Some 320, Some 400])]\<rparr>"

text \<open>The two-row table after one iteration that predicted 400.\<close>

definition three_row_table :: frame where
  "three_row_table =
     \<lparr>index = [0, 3600000000000, 7200000000000],
      cols = [(''Phase2_current'', [Some 1, Some 2, Some 2]),
              (''Phase2_voltage'', [Some 230, Some 231, Some 231]),
              (''Phase3_frequency'', [Some 50, Some 50, Some 50]),
              (''Phase3_pf'', [Some 1, None, None]),
              (''Phase3_power'', [Some 300, Some 310, Some 400]),
              (''Phase3_voltage'', [Some 229, Some 228, Some 228]),
              (''Phase1_power'', [Some 11, Some 12, Some 12])]\<rparr>"

text \<open>The table after a second iteration that predicted 400.\<close>

definition four_row_table :: frame where
  "four_row_table =
     \<lparr>index = [0, 3600000000000, 7200000000000, 10800000000000],
      cols = [(''Phase2_current'', [Some 1, Some 2, Some 2, Some 2]),
              (''Phase2_voltage'', [Some 230, Some 231, Some 231, Some 231]),
              (''Phase3_frequency'', [Some 50, Some 50, Some 50, Some 50]),
              (''Phase3_pf'', [Some 1, None, None, None]),
              (''Phase3_power'', [Some 300, Some 310, Some 400, Some 400]),
              (''Phase3_voltage'', [Some 229, Some 228, Some 228, Some 228]),
              (''Phase1_power'', [Some 11, Some 12, Some 12, Some 12])]\<rparr>"

text \<open>What the forecast needs from the models to complete: every call the loop makes is
  answered, with one prediction per row handed in (the tree and fusion regressors get
  one-row frames, the sequence regressor a batch of one window) and a scaled value
  unscaled to one value.\<close>

definition models_respond :: "models \<Rightarrow> bool" where
  "models_respond m \<longleftrightarrow>
     (\<forall>X. nrows X = 1 \<longrightarrow> (\<exists>p. model_xgb m X = Inr [p]))
   \<and> (\<forall>W. \<exists>M. scaler_x m W = Inr M)
   \<and> (\<forall>M. \<exists>s. model_lstm m [M] = Inr [[s]])
   \<and> (\<forall>s. \<exists>p. scaler_y_inv m [[s]] = Inr [[p]])
   \<and> (\<forall>X. nrows X = 1 \<longrightarrow> (\<exists>p. model_fusion m X = Inr [p]))"

section \<open>Basic facts about the operations\<close>

lemma bind_err_Inl [simp]: "bind_err (Inl e) k = Inl e"
  by (simp add: bind_err_def)

lemma bind_err_Inr [simp]: "bind_err (Inr x) k = k x"
  by (simp add: bind_err_def)

lemma bind_err_eq_Inr: "bind_err r k = Inr y \<longleftrightarrow> (\<exists>x. r = Inr x \<and> k x = Inr y)"
  by (cases r) simp_all

lemma bind_err_eq_Inl: "bind_err r k = Inl e \<longleftrightarrow> r = Inl e \<or> (\<exists>x. r = Inr x \<and> k x = Inl e)"
  by (cases r) simp_all

lemma get_col_set_col: "get_col (set_col c xs f) c' = (if c' = c then Inr xs else get_col f c')"
  by (simp add: get_col_def set_col_def update_conv')

lemma index_set_col [simp]: "index (set_col c xs f) = index f"
  by (simp add: set_col_def)

lemma nrows_set_col [simp]: "nrows (set_col c xs f) = nrows f"
  by (simp add: nrows_def)

lemma columns_set_col:
  "columns (set_col c xs f) = (if c \<in> set (columns f) then columns f else columns f @ [c])"
  by (simp add: columns_def set_col_def update_keys)

lemma get_col_Inr_iff: "(\<exists>xs. get_col f c = Inr xs) \<longleftrightarrow> c \<in> set (columns f)"
proof (cases "map_of (cols f) c")
  case None
  then have "c \<notin> set (columns f)"
    by (simp add: columns_def map_of_eq_None_iff)
  with None show ?thesis by (simp add: get_col_def)
next
  case (Some xs)
  then have "c \<in> set (columns f)"
    by (auto simp: columns_def dest: map_of_SomeD intro: rev_image_eqI)
  with Some show ?thesis by (simp add: get_col_def)
qed

lemma get_col_Inl: "get_col f c = Inl e \<Longrightarrow> e = KeyError c \<and> c \<notin> set (columns f)"
  by (auto simp: get_col_def columns_def map_of_eq_None_iff split: option.splits)

lemma get_col_iloc_tail:
  "get_col (iloc_tail n f) c = map_sum id (tail_slice n) (get_col f c)"
proof -
  have "map_of (map (\<lambda>(c, xs). (c, tail_slice n xs)) (cols f)) c
          = map_option (tail_slice n) (map_of (cols f) c)"
    by (induction "cols f" arbitrary: f) (auto simp: map_of_map)
  then show ?thesis
    by (simp add: get_col_def iloc_tail_def split: option.splits)
qed

lemma columns_iloc_tail [simp]: "columns (iloc_tail n f) = columns f"
  by (simp add: columns_def iloc_tail_def comp_def case_prod_unfold)

lemma index_iloc_tail [simp]: "index (iloc_tail n f) = tail_slice n (index f)"
  by (simp add: iloc_tail_def)

lemma length_tail_slice: "0 < n \<Longrightarrow> length (tail_slice n xs) = min (length xs) n"
  by (simp add: tail_slice_def)

lemma select_cols_Inr:
  "select_cols cs f = Inr sel \<Longrightarrow>
     map fst sel = cs \<and> (\<forall>c \<in> set cs. map_of sel c = map_of (cols f) c)"
proof (induction cs arbitrary: sel)
  case Nil
  then show ?case by simp
next
  case (Cons c cs)
  from Cons.prems obtain xs rest where
    xs: "get_col f c = Inr xs" and rest: "select_cols cs f = Inr rest"
    and sel: "sel = (c, xs) # rest"
    by (auto simp: bind_err_eq_Inr)
  from xs have "map_of (cols f) c = Some xs"
    by (simp add: get_col_def split: option.splits)
  with Cons.IH[OF rest] sel show ?case by auto
qed

lemma select_cols_total:
  "set cs \<subseteq> set (columns f) \<Longrightarrow> \<exists>sel. select_cols cs f = Inr sel"
proof (induction cs)
  case Nil
  then show ?case by simp
next
  case (Cons c cs)
  then obtain xs where "get_col f c = Inr xs"
    using get_col_Inr_iff[of f c] by auto
  moreover from Cons obtain rest where "select_cols cs f = Inr rest" by auto
  ultimately show ?case by simp
qed

lemma select_Inr:
  "select cs f = Inr g \<Longrightarrow>
     columns g = cs \<and> index g = index f \<and> (\<forall>c \<in> set cs. get_col g c = get_col f c)"
  by (auto simp: select_def bind_err_eq_Inr columns_def get_col_def dest!: select_cols_Inr)

lemma select_total: "set cs \<subseteq> set (columns f) \<Longrightarrow> \<exists>g. select cs f = Inr g"
  using select_cols_total[of cs f] by (auto simp: select_def)

section \<open>The sequence window\<close>

lemma select_cols_Inl:
  "select_cols cs f = Inl e \<Longrightarrow> \<exists>c \<in> set cs. e = KeyError c \<and> c \<notin> set (columns f)"
proof (induction cs)
  case Nil
  then show ?case by simp
next
  case (Cons c cs)
  from Cons.prems consider "get_col f c = Inl e" | "select_cols cs f = Inl e"
    by (auto simp: bind_err_eq_Inl)
  then show ?case
  proof cases
    case 1
    from get_col_Inl[OF 1] show ?thesis by simp
  next
    case 2
    from Cons.IH[OF 2] show ?thesis by auto
  qed
qed

lemma lstm_window_Inl:
  "lstm_window f = Inl e \<Longrightarrow> \<exists>c \<in> set FEATURES_LSTM. e = KeyError c \<and> c \<notin> set (columns f)"
  by (auto simp: lstm_window_def select_def bind_err_eq_Inl dest: select_cols_Inl)

text \<open>
  Claim C5, as amended. The window extraction has no check on the number of rows: when the
  six requested channels are columns of the table it succeeds, and returns the last
  \<open>min(rows, N_LOOKBACK)\<close> rows restricted to those channels in the requested order
  (so exactly \<open>N_LOOKBACK\<close> rows when the table has that many). It can fail only with
  KeyError, and the key is a requested channel that is not a column of the table.
\<close>

theorem lstm_window_never_insufficient:
  "(set FEATURES_LSTM \<subseteq> set (columns f) \<longrightarrow>
      (\<exists>w. lstm_window f = Inr w
           \<and> columns w = FEATURES_LSTM
           \<and> index w = tail_slice N_LOOKBACK (index f)
           \<and> nrows w = min (nrows f) N_LOOKBACK
           \<and> (\<forall>c \<in> set FEATURES_LSTM.
                 get_col w c = map_sum id (tail_slice N_LOOKBACK) (get_col f c))))
   \<and> (\<forall>e. lstm_window f = Inl e \<longrightarrow>
          (\<exists>c \<in> set FEATURES_LSTM. e = KeyError c \<and> c \<notin> set (columns f)))"
proof (intro conjI impI allI)
  assume cs: "set FEATURES_LSTM \<subseteq> set (columns f)"
  from select_total[OF cs] obtain g where g: "select FEATURES_LSTM f = Inr g" by blast
  note sg = select_Inr[OF g]
  have "lstm_window f = Inr (iloc_tail N_LOOKBACK g)"
    by (simp add: lstm_window_def g)
  moreover have "nrows (iloc_tail N_LOOKBACK g) = min (nrows f) N_LOOKBACK"
    using sg by (simp add: nrows_def length_tail_slice N_LOOKBACK_def)
  moreover have "\<forall>c \<in> set FEATURES_LSTM.
      get_col (iloc_tail N_LOOKBACK g) c = map_sum id (tail_slice N_LOOKBACK) (get_col f c)"
    using sg by (simp add: get_col_iloc_tail)
  ultimately show "\<exists>w. lstm_window f = Inr w
           \<and> columns w = FEATURES_LSTM
           \<and> index w = tail_slice N_LOOKBACK (index f)
           \<and> nrows w = min (nrows f) N_LOOKBACK
           \<and> (\<forall>c \<in> set FEATURES_LSTM.
                 get_col w c = map_sum id (tail_slice N_LOOKBACK) (get_col f c))"
    using sg by simp
next
  fix e assume "lstm_window f = Inl e"
  then show "\<exists>c \<in> set FEATURES_LSTM. e = KeyError c \<and> c \<notin> set (columns f)"
    by (rule lstm_window_Inl)
qed

text \<open>On a table of two rows the extraction succeeds and returns the two rows: no
  failure for a table shorter than \<open>N_LOOKBACK\<close>.\<close>

theorem lstm_window_short_table:
  "nrows two_row_table < N_LOOKBACK
   \<and> lstm_window two_row_table =
       Inr \<lparr>index = [0, 3600000000000],
            cols = [(''Phase2_current'', [Some 1, Some 2]),
                    (''Phase2_voltage'', [Some 230, Some 231]),
                    (''Phase3_frequency'', [Some 50, Some 50]),
                    (''Phase3_pf'', [Some 1, None]),
                    (''Phase3_power'', [Some 300, Some 310]),
                    (''Phase3_voltage'', [Some 229, Some 228])]\<rparr>"
  by (simp add: lstm_window_def select_def get_col_def iloc_tail_def tail_slice_def
      two_row_table_def FEATURES_LSTM_def N_LOOKBACK_def nrows_def)

text \<open>The two directions on samples: the two-row table has the six channels and the
  extraction returns its two rows; the table with the target column only makes it fail
  with the KeyError of a requested channel the table lacks.\<close>

theorem lstm_window_never_insufficient_witness:
  "set FEATURES_LSTM \<subseteq> set (columns two_row_table)
   \<and> (\<exists>w. lstm_window two_row_table = Inr w \<and> columns w = FEATURES_LSTM \<and> nrows w = 2)
   \<and> lstm_window power_only_table = Inl (KeyError ''Phase2_current'')
   \<and> ''Phase2_current'' \<in> set FEATURES_LSTM
   \<and> ''Phase2_current'' \<notin> set (columns power_only_table)"
proof -
  have h: "set FEATURES_LSTM \<subseteq> set (columns two_row_table)"
    by (simp add: FEATURES_LSTM_def columns_def two_row_table_def)
  have n: "min (nrows two_row_table) N_LOOKBACK = 2"
    by (simp add: nrows_def two_row_table_def N_LOOKBACK_def)
  have f: "lstm_window power_only_table = Inl (KeyError ''Phase2_current'')"
    by (simp add: lstm_window_def select_def get_col_def power_only_table_def
        FEATURES_LSTM_def)
  from lstm_window_never_insufficient[of two_row_table] h n
  have a: "\<exists>w. lstm_window two_row_table = Inr w \<and> columns w = FEATURES_LSTM \<and> nrows w = 2"
    by auto
  from lstm_window_never_insufficient[of power_only_table] f
  have b: "''Phase2_current'' \<in> set FEATURES_LSTM
         \<and> ''Phase2_current'' \<notin> set (columns power_only_table)"
    by auto
  from h a f b show ?thesis by simp
qed

section \<open>Feature derivation\<close>

lemma int_col_set_col [simp]: "int_col field (set_col c xs f) = int_col field f"
  by (simp add: int_col_def)

lemma create_features_xgb_eq:
  assumes xs: "get_col df target_col = Inr xs"
      and nc: "target_col \<notin> {''hour'', ''dayofweek'', ''month'', ''quarter'', ''year'', ''dayofyear''}"
  shows "create_features_xgb df target_col =
     Inr (set_col (target_col @ ''_roll_avg_24h'') (shift 1 (rolling_mean 24 xs))
         (set_col (target_col @ ''_roll_avg_6h'') (shift 1 (rolling_mean 6 xs))
         (set_col (target_col @ ''_roll_avg_3h'') (shift 1 (rolling_mean 3 xs))
         (set_col (target_col @ ''_lag_24h'') (shift 24 xs)
         (set_col (target_col @ ''_lag_3h'') (shift 3 xs)
         (set_col (target_col @ ''_lag_1h'') (shift 1 xs)
         (set_col ''dayofyear'' (int_col dayofyear_of df)
         (set_col ''year'' (int_col year_of df)
         (set_col ''quarter'' (int_col quarter_of df)
         (set_col ''month'' (int_col month_of df)
         (set_col ''dayofweek'' (int_col dayofweek_of df)
         (set_col ''hour'' (int_col hour_of df) df))))))))))))"
  using xs nc by (simp add: create_features_xgb_def get_col_set_col)

lemma create_features_xgb_fails:
  assumes "get_col df target_col = Inl e"
      and "target_col \<notin> {''hour'', ''dayofweek'', ''month'', ''quarter'', ''year'', ''dayofyear''}"
  shows "create_features_xgb df target_col = Inl e"
  using assms by (simp add: create_features_xgb_def get_col_set_col)

lemma window_as_rows:
  assumes "w \<le> t" and "t \<le> length xs"
  shows "take w (drop (t - w) xs) = map (\<lambda>i. xs ! i) [t - w..<t]"
  using assms by (intro nth_equalityI) auto

lemma shifted_rolling_mean_nth:
  assumes "0 < w" and "w \<le> t" and "t < length xs"
  shows "shift 1 (rolling_mean w xs) ! t = mean_cells (map (\<lambda>i. xs ! i) [t - w..<t])"
proof -
  have len: "length (rolling_mean w xs) = length xs"
    by (simp add: rolling_mean_def)
  from assms have t: "0 < t" "t - 1 < length xs" by auto
  have "shift 1 (rolling_mean w xs) ! t = rolling_mean w xs ! (t - 1)"
    using assms t by (simp add: shift_def len nth_append min_def)
  also have "\<dots> = mean_cells (take w (drop (t - w) xs))"
    using assms t by (simp add: rolling_mean_def)
  also have "\<dots> = mean_cells (map (\<lambda>i. xs ! i) [t - w..<t])"
    using assms by (simp add: window_as_rows)
  finally show ?thesis .
qed

lemma length_shift [simp]: "length (shift k xs) = length xs"
  by (simp add: shift_def)

lemma length_rolling_mean [simp]: "length (rolling_mean w xs) = length xs"
  by (simp add: rolling_mean_def)

text \<open>
  Claim C3. For a target column that is not one of the six calendar names, and for each
  of the windows 3, 6 and 24, the rolling-mean column of the derived table holds at every
  row \<open>t\<close> with at least \<open>w\<close> rows before it the mean of the target over the rows
  \<open>t - w, ..., t - 1\<close>: the \<open>w\<close> rows strictly before \<open>t\<close>, never row \<open>t\<close> itself.
\<close>

theorem rolling_means_causal:
  assumes feats: "create_features_xgb df target_col = Inr feats"
      and nc: "target_col \<notin> {''hour'', ''dayofweek'', ''month'', ''quarter'', ''year'', ''dayofyear''}"
      and xs: "get_col df target_col = Inr xs"
      and w: "(w, name) \<in> {(3, ''_roll_avg_3h''), (6, ''_roll_avg_6h''), (24, ''_roll_avg_24h'')}"
      and t: "w \<le> t" "t < length xs"
  shows "\<exists>ys. get_col feats (target_col @ name) = Inr ys
           \<and> length ys = length xs
           \<and> ys ! t = mean_cells (map (\<lambda>i. xs ! i) [t - w..<t])"
proof -
  from w have w0: "0 < w" by auto
  have "get_col feats (target_col @ name) = Inr (shift 1 (rolling_mean w xs))"
    using feats w unfolding create_features_xgb_eq[OF xs nc]
    by (auto simp: get_col_set_col)
  moreover have "shift 1 (rolling_mean w xs) ! t = mean_cells (map (\<lambda>i. xs ! i) [t - w..<t])"
    using shifted_rolling_mean_nth[OF w0 t] .
  ultimately show ?thesis by simp
qed

theorem rolling_means_causal_witness:
  "\<exists>feats ys.
      create_features_xgb power_only_table ''Phase3_power'' = Inr feats
      \<and> get_col feats ''Phase3_power_roll_avg_3h'' = Inr ys
      \<and> ys ! 3 = Some 310"
proof -
  have xs: "get_col power_only_table ''Phase3_power''
              = Inr [Some 300, Some 310, Some 320, Some 400]"
    by (simp add: get_col_def power_only_table_def)
  have nc: "''Phase3_power''
      \<notin> {''hour'', ''dayofweek'', ''month'', ''quarter'', ''year'', ''dayofyear''}"
    by simp
  obtain feats where feats: "create_features_xgb power_only_table ''Phase3_power'' = Inr feats"
    using create_features_xgb_eq[OF xs nc] by simp
  have w: "(3, ''_roll_avg_3h'')
      \<in> {(3::nat, ''_roll_avg_3h''), (6, ''_roll_avg_6h''), (24, ''_roll_avg_24h'')}"
    by simp
  have m: "mean_cells (map (\<lambda>i. [Some 300, Some 310, Some 320, Some 400] ! i) [3 - 3..<3])
             = Some 310"
    by (simp add: mean_cells_def upt_rec numeral_nat)
  from rolling_means_causal[OF feats nc xs w, of 3] m feats show ?thesis
    by auto
qed

section \<open>The alert check\<close>

lemma demo_message_eq:
  "demo_message = ''Demo Alert: Predicted load 512.5 MW exceeds 500 MW threshold.''"
  by code_simp

text \<open>
  Claim C4. Neither endpoint reads a forecast or compares a value with the threshold:
  whatever the forecast is, \<open>check_alerts\<close> answers with the one demo alert, four hours
  after the clock reading, and so does the enhanced endpoint whenever the data is loaded.
  In particular the answer is not empty when no predicted power exceeds the threshold.
\<close>

theorem check_alerts_always_demo_alert:
  "check_alerts now =
     [\<lparr>alert_timestamp = Some (now + 14400000000000), level = ''critical'',
       alert_id = Some ''alert-1'',
       message = ''Demo Alert: Predicted load 512.5 MW exceeds 500 MW threshold.''\<rparr>]
   \<and> check_alerts_enhanced (Some fd) now =
     [\<lparr>alert_timestamp = Some (now + 14400000000000), level = ''critical'',
       alert_id = None,
       message = ''Demo Alert: Predicted load 512.5 MW exceeds 500 MW threshold.''\<rparr>]"
  by (simp add: check_alerts_def check_alerts_enhanced_def demo_message_eq ns_per_hour_def)

section \<open>The feature vector of the tree regressor\<close>

lemma columns_create_features_xgb:
  assumes "create_features_xgb base_data TARGET_COLUMN = Inr feats"
  shows "set (columns feats) =
           set (columns base_data)
           \<union> {''hour'', ''dayofweek'', ''month'', ''quarter'', ''year'', ''dayofyear''}
           \<union> {''Phase3_power_lag_1h'', ''Phase3_power_lag_3h'', ''Phase3_power_lag_24h'',
               ''Phase3_power_roll_avg_3h'', ''Phase3_power_roll_avg_6h'',
               ''Phase3_power_roll_avg_24h''}"
proof -
  have set_cols: "\<And>c xs f. set (columns (set_col c xs f)) = insert c (set (columns f))"
    by (auto simp: columns_set_col)
  from assms obtain xs where xs: "get_col base_data TARGET_COLUMN = Inr xs"
    by (auto simp: create_features_xgb_def get_col_set_col TARGET_COLUMN_def bind_err_eq_Inr)
  have nc: "TARGET_COLUMN
      \<notin> {''hour'', ''dayofweek'', ''month'', ''quarter'', ''year'', ''dayofyear''}"
    by (simp add: TARGET_COLUMN_def)
  from assms show ?thesis
    unfolding create_features_xgb_eq[OF xs nc]
    by (auto simp: set_cols TARGET_COLUMN_def)
qed

text \<open>
  Claim C6, as amended. From the timestamp of every row the feature deriver computes six
  calendar columns (hour, day of week, month, quarter, year, day of year), and besides
  them adds exactly the six lag and rolling columns. The frame handed to the tree
  regressor has the 17 columns of \<open>FEATURES_XGB\<close> in that order: the 5 raw channels,
  then the 6 calendar fields, then the 6 lag and rolling features.
\<close>

theorem feature_vector_layout:
  assumes feats: "create_features_xgb base_data TARGET_COLUMN = Inr feats"
      and X: "select FEATURES_XGB (iloc_tail 1 feats) = Inr X_xgb"
  shows "get_col feats ''hour'' = Inr (int_col hour_of base_data)
       \<and> get_col feats ''dayofweek'' = Inr (int_col dayofweek_of base_data)
       \<and> get_col feats ''month'' = Inr (int_col month_of base_data)
       \<and> get_col feats ''quarter'' = Inr (int_col quarter_of base_data)
       \<and> get_col feats ''year'' = Inr (int_col year_of base_data)
       \<and> get_col feats ''dayofyear'' = Inr (int_col dayofyear_of base_data)
       \<and> set (columns feats) =
           set (columns base_data)
           \<union> {''hour'', ''dayofweek'', ''month'', ''quarter'', ''year'', ''dayofyear''}
           \<union> {''Phase3_power_lag_1h'', ''Phase3_power_lag_3h'', ''Phase3_power_lag_24h'',
               ''Phase3_power_roll_avg_3h'', ''Phase3_power_roll_avg_6h'',
               ''Phase3_power_roll_avg_24h''}
       \<and> columns X_xgb =
           [''Phase2_current'', ''Phase2_voltage'', ''Phase3_frequency'', ''Phase3_pf'',
            ''Phase3_voltage'',
            ''hour'', ''dayofweek'', ''month'', ''quarter'', ''year'', ''dayofyear'',
            ''Phase3_power_lag_1h'', ''Phase3_power_lag_3h'', ''Phase3_power_lag_24h'',
            ''Phase3_power_roll_avg_3h'', ''Phase3_power_roll_avg_6h'',
            ''Phase3_power_roll_avg_24h'']
       \<and> length (columns X_xgb) = 5 + 6 + 6"
proof -
  from feats obtain xs where xs: "get_col base_data TARGET_COLUMN = Inr xs"
    by (auto simp: create_features_xgb_def get_col_set_col TARGET_COLUMN_def bind_err_eq_Inr)
  have nc: "TARGET_COLUMN
      \<notin> {''hour'', ''dayofweek'', ''month'', ''quarter'', ''year'', ''dayofyear''}"
    by (simp add: TARGET_COLUMN_def)
  have cal: "get_col feats ''hour'' = Inr (int_col hour_of base_data)"
    "get_col feats ''dayofweek'' = Inr (int_col dayofweek_of base_data)"
    "get_col feats ''month'' = Inr (int_col month_of base_data)"
    "get_col feats ''quarter'' = Inr (int_col quarter_of base_data)"
    "get_col feats ''year'' = Inr (int_col year_of base_data)"
    "get_col feats ''dayofyear'' = Inr (int_col dayofyear_of base_data)"
    using feats unfolding create_features_xgb_eq[OF xs nc]
    by (auto simp: get_col_set_col TARGET_COLUMN_def)
  have colsX: "columns X_xgb = FEATURES_XGB"
    using select_Inr[OF X] by simp
  show ?thesis
    using cal columns_create_features_xgb[OF feats] colsX
    by (simp add: FEATURES_XGB_def TARGET_COLUMN_def)
qed

text \<open>The feature list has 17 entries, not 5 + 5 + 6, and on the four-row sample the
  deriver adds six calendar columns to the one column of the table.\<close>

theorem feature_vector_has_six_calendar_fields:
  "length FEATURES_XGB \<noteq> 5 + 5 + 6
   \<and> map_sum id columns (create_features_xgb power_only_table TARGET_COLUMN) =
       Inr [''Phase3_power'',
            ''hour'', ''dayofweek'', ''month'', ''quarter'', ''year'', ''dayofyear'',
            ''Phase3_power_lag_1h'', ''Phase3_power_lag_3h'', ''Phase3_power_lag_24h'',
            ''Phase3_power_roll_avg_3h'', ''Phase3_power_roll_avg_6h'',
            ''Phase3_power_roll_avg_24h'']"
proof -
  have xs: "get_col power_only_table TARGET_COLUMN
              = Inr [Some 300, Some 310, Some 320, Some 400]"
    by (simp add: get_col_def power_only_table_def TARGET_COLUMN_def)
  have nc: "TARGET_COLUMN
      \<notin> {''hour'', ''dayofweek'', ''month'', ''quarter'', ''year'', ''dayofyear''}"
    by (simp add: TARGET_COLUMN_def)
  have "columns power_only_table = [''Phase3_power'']"
    by (simp add: columns_def power_only_table_def)
  then show ?thesis
    unfolding create_features_xgb_eq[OF xs nc]
    by (simp add: columns_set_col FEATURES_XGB_def TARGET_COLUMN_def)
qed

theorem feature_vector_layout_witness:
  "\<exists>feats X_xgb.
      create_features_xgb two_row_table TARGET_COLUMN = Inr feats
      \<and> select FEATURES_XGB (iloc_tail 1 feats) = Inr X_xgb
      \<and> get_col feats ''hour'' = Inr [Some 0, Some 1]
      \<and> length (columns X_xgb) = 17"
proof -
  have "\<exists>xs. get_col two_row_table TARGET_COLUMN = Inr xs"
    by (simp add: get_col_def two_row_table_def TARGET_COLUMN_def)
  then obtain xs where xs: "get_col two_row_table TARGET_COLUMN = Inr xs" ..
  have nc: "TARGET_COLUMN
      \<notin> {''hour'', ''dayofweek'', ''month'', ''quarter'', ''year'', ''dayofyear''}"
    by (simp add: TARGET_COLUMN_def)
  obtain feats where feats: "create_features_xgb two_row_table TARGET_COLUMN = Inr feats"
    using create_features_xgb_eq[OF xs nc] by simp
  have c2: "columns two_row_table =
      [''Phase2_current'', ''Phase2_voltage'', ''Phase3_frequency'', ''Phase3_pf'',
       ''Phase3_power'', ''Phase3_voltage'', ''Phase1_power'']"
    by (simp add: columns_def two_row_table_def)
  have "set FEATURES_XGB \<subseteq> set (columns (iloc_tail 1 feats))"
    using columns_create_features_xgb[OF feats] c2
    by (simp add: FEATURES_XGB_def TARGET_COLUMN_def)
  from select_total[OF this] obtain X where X: "select FEATURES_XGB (iloc_tail 1 feats) = Inr X"
    by blast
  have h: "int_col hour_of two_row_table = [Some 0, Some 1]"
    by (simp add: int_col_def two_row_table_def hour_of_def ns_per_hour_def)
  from feature_vector_layout[OF feats X] feats X h show ?thesis by auto
qed

section \<open>One iteration of the rollout\<close>

lemma get_col_set_col_scalar:
  "get_col (set_col_scalar c v f) c' =
     (if c' = c then Inr (replicate (nrows f) v) else get_col f c')"
  by (simp add: set_col_scalar_def get_col_set_col)

lemma index_set_col_scalar [simp]: "index (set_col_scalar c v f) = index f"
  by (simp add: set_col_scalar_def)

lemma nrows_set_col_scalar [simp]: "nrows (set_col_scalar c v f) = nrows f"
  by (simp add: nrows_def)

lemma columns_set_col_scalar:
  "c \<in> set (columns f) \<Longrightarrow> columns (set_col_scalar c v f) = columns f"
  by (simp add: set_col_scalar_def columns_set_col)

lemma last_elem_Inr: "last_elem xs = Inr v \<longleftrightarrow> xs \<noteq> [] \<and> v = last xs"
  by (auto simp: last_elem_def)

lemma carry_forward_Inr:
  assumes "carry_forward cs base_data new_row = Inr new_row'"
      and "set cs \<subseteq> set (columns new_row)"
  shows "index new_row' = index new_row
       \<and> columns new_row' = columns new_row
       \<and> (\<forall>c. c \<in> set cs \<and> c \<noteq> TARGET_COLUMN \<longrightarrow>
             (\<exists>xs. get_col base_data c = Inr xs \<and> xs \<noteq> []
                  \<and> get_col new_row' c = Inr (replicate (nrows new_row) (last xs))))
       \<and> (\<forall>c. c \<notin> set cs \<or> c = TARGET_COLUMN \<longrightarrow> get_col new_row' c = get_col new_row c)"
  using assms
proof (induction cs arbitrary: new_row)
  case Nil
  then show ?case by simp
next
  case (Cons col rest)
  show ?case
  proof (cases "col = TARGET_COLUMN")
    case True
    with Cons.prems have "carry_forward rest base_data new_row = Inr new_row'"
      and "set rest \<subseteq> set (columns new_row)" by auto
    from Cons.IH[OF this] True show ?thesis by auto
  next
    case False
    with Cons.prems(1) obtain xs where xs: "get_col base_data col = Inr xs" "xs \<noteq> []"
      and rest: "carry_forward rest base_data (set_col_scalar col (last xs) new_row) = Inr new_row'"
      by (auto simp: bind_err_eq_Inr last_elem_Inr)
    from Cons.prems(2) have col: "col \<in> set (columns new_row)" by simp
    with Cons.prems(2)
    have sub: "set rest \<subseteq> set (columns (set_col_scalar col (last xs) new_row))"
      by (simp add: columns_set_col_scalar)
    note IH = Cons.IH[OF rest sub]
    show ?thesis
    proof (intro conjI allI impI)
      show "index new_row' = index new_row" using IH by simp
      show "columns new_row' = columns new_row"
        using IH col by (simp add: columns_set_col_scalar)
    next
      fix c assume c: "c \<in> set (col # rest) \<and> c \<noteq> TARGET_COLUMN"
      show "\<exists>ys. get_col base_data c = Inr ys \<and> ys \<noteq> []
              \<and> get_col new_row' c = Inr (replicate (nrows new_row) (last ys))"
      proof (cases "c \<in> set rest")
        case True
        with c IH show ?thesis by simp
      next
        case False
        with c have "c = col" by simp
        moreover from False IH
        have "get_col new_row' c = get_col (set_col_scalar col (last xs) new_row) c" by blast
        ultimately show ?thesis using xs by (simp add: get_col_set_col_scalar)
      qed
    next
      fix c assume c: "c \<notin> set (col # rest) \<or> c = TARGET_COLUMN"
      then have "c \<notin> set rest \<or> c = TARGET_COLUMN" and "c \<noteq> col"
        using False by auto
      with IH show "get_col new_row' c = get_col new_row c"
        by (simp add: get_col_set_col_scalar)
    qed
  qed
qed

lemma synth_row_Inr:
  assumes "synth_row base_data next_timestamp pred_fusion = Inr new_row"
      and "TARGET_COLUMN \<in> set (columns base_data)"
  shows "index new_row = [next_timestamp]
       \<and> columns new_row = columns base_data
       \<and> get_col new_row TARGET_COLUMN = Inr [pred_fusion]
       \<and> (\<forall>c. c \<in> set (columns base_data) \<and> c \<noteq> TARGET_COLUMN \<longrightarrow>
             (\<exists>xs. get_col base_data c = Inr xs \<and> xs \<noteq> []
                  \<and> get_col new_row c = Inr [last xs]))"
proof -
  let ?r1 = "(iloc_tail 1 base_data)\<lparr>index := [next_timestamp]\<rparr>"
  let ?r2 = "set_col_scalar TARGET_COLUMN pred_fusion ?r1"
  have c1: "columns ?r1 = columns base_data"
    by (simp add: columns_def iloc_tail_def comp_def case_prod_unfold)
  have c2: "columns ?r2 = columns base_data"
    using assms(2) c1 by (simp add: columns_set_col_scalar)
  have n2: "nrows ?r2 = 1" by (simp add: nrows_def)
  from assms(1) have cf: "carry_forward (columns ?r2) base_data ?r2 = Inr new_row"
    by (simp add: synth_row_def Let_def)
  have "set (columns ?r2) \<subseteq> set (columns ?r2)" by simp
  note cfI = carry_forward_Inr[OF cf this]
  have t: "get_col ?r2 TARGET_COLUMN = Inr [pred_fusion]"
    by (simp add: get_col_set_col_scalar nrows_def)
  show ?thesis
    using cfI c2 n2 t by (auto simp: nrows_def)
qed

lemma map_of_map_keyed:
  "map_of (map (\<lambda>(c, xs). (c, h c xs)) al) c = map_option (h c) (map_of al c)"
  by (induction al) auto

lemma index_concat_frames [simp]: "index (concat_frames f g) = index f @ index g"
  by (simp add: concat_frames_def)

lemma columns_concat_frames:
  "set (columns g) \<subseteq> set (columns f) \<Longrightarrow> columns (concat_frames f g) = columns f"
proof -
  assume sub: "set (columns g) \<subseteq> set (columns f)"
  have "filter (\<lambda>(c, ys). c \<notin> set (columns f)) (cols g) = []"
    using sub by (force simp: filter_empty_conv columns_def)
  then show ?thesis
    by (simp add: concat_frames_def columns_def comp_def case_prod_unfold)
qed

lemma get_col_concat_frames:
  assumes "get_col f c = Inr xs" and "get_col g c = Inr ys"
  shows "get_col (concat_frames f g) c = Inr (xs @ ys)"
proof -
  from assms have f: "map_of (cols f) c = Some xs" and g: "map_of (cols g) c = Some ys"
    by (auto simp: get_col_def split: option.splits)
  let ?h = "\<lambda>c xs. xs @ (case map_of (cols g) c of Some ys \<Rightarrow> ys
                                                | None \<Rightarrow> replicate (nrows g) None)"
  have "map_of (map (\<lambda>(c, xs). (c, ?h c xs)) (cols f)) c = Some (xs @ ys)"
    unfolding map_of_map_keyed using f g by simp
  then show ?thesis
    by (simp add: get_col_def concat_frames_def map_add_def)
qed

lemma create_features_xgb_target:
  "create_features_xgb base_data TARGET_COLUMN = Inr feats \<Longrightarrow>
     TARGET_COLUMN \<in> set (columns base_data)"
proof -
  assume "create_features_xgb base_data TARGET_COLUMN = Inr feats"
  then obtain xs where "get_col base_data TARGET_COLUMN = Inr xs"
    by (auto simp: create_features_xgb_def get_col_set_col TARGET_COLUMN_def bind_err_eq_Inr)
  then show ?thesis using get_col_Inr_iff by blast
qed

lemma add_hour_Inr: "add_hour t = Inr t' \<Longrightarrow> t' = t + ns_per_hour"
  by (auto simp: add_hour_def split: if_splits)

lemma rollout_step_Inr:
  assumes "rollout_step m base_data = Inr (entry, base_data')"
  shows "\<exists>new_row.
           predict_next m base_data = Inr (predicted_power entry)
         \<and> index base_data \<noteq> []
         \<and> timestamp entry = last (index base_data) + ns_per_hour
         \<and> timestamp entry \<le> timestamp_max
         \<and> TARGET_COLUMN \<in> set (columns base_data)
         \<and> synth_row base_data (timestamp entry) (predicted_power entry) = Inr new_row
         \<and> base_data' = concat_frames base_data new_row"
proof -
  from assms obtain pred last_ts next_ts new_row where
    p: "predict_next m base_data = Inr pred"
    and l: "last_elem (index base_data) = Inr last_ts"
    and a: "add_hour last_ts = Inr next_ts"
    and s: "synth_row base_data next_ts pred = Inr new_row"
    and e: "entry = \<lparr>timestamp = next_ts, predicted_power = pred\<rparr>"
    and b: "base_data' = concat_frames base_data new_row"
    by (auto simp: rollout_step_def bind_err_eq_Inr)
  from p obtain feats where "create_features_xgb base_data TARGET_COLUMN = Inr feats"
    by (auto simp: predict_next_def bind_err_eq_Inr)
  then have t: "TARGET_COLUMN \<in> set (columns base_data)"
    by (rule create_features_xgb_target)
  from a have "next_ts \<le> timestamp_max"
    by (auto simp: add_hour_def split: if_splits)
  with p l a s e b t show ?thesis
    by (auto simp: last_elem_Inr dest: add_hour_Inr)
qed

lemma rollout_step_effect:
  assumes "rollout_step m base_data = Inr (entry, base_data')"
  shows "predict_next m base_data = Inr (predicted_power entry)
       \<and> index base_data' = index base_data @ [last (index base_data) + ns_per_hour]
       \<and> timestamp entry = last (index base_data) + ns_per_hour
       \<and> columns base_data' = columns base_data
       \<and> (\<exists>xs. get_col base_data TARGET_COLUMN = Inr xs
              \<and> get_col base_data' TARGET_COLUMN = Inr (xs @ [predicted_power entry]))
       \<and> (\<forall>c \<in> set (columns base_data). c \<noteq> TARGET_COLUMN \<longrightarrow>
             (\<exists>xs. get_col base_data c = Inr xs \<and> xs \<noteq> []
                  \<and> get_col base_data' c = Inr (xs @ [last xs])))"
proof -
  from rollout_step_Inr[OF assms] obtain new_row where
    p: "predict_next m base_data = Inr (predicted_power entry)"
    and ts: "timestamp entry = last (index base_data) + ns_per_hour"
    and t: "TARGET_COLUMN \<in> set (columns base_data)"
    and s: "synth_row base_data (timestamp entry) (predicted_power entry) = Inr new_row"
    and b: "base_data' = concat_frames base_data new_row"
    by blast
  note sr = synth_row_Inr[OF s t]
  from t obtain xs where xs: "get_col base_data TARGET_COLUMN = Inr xs"
    using get_col_Inr_iff by blast
  have tgt: "get_col base_data' TARGET_COLUMN = Inr (xs @ [predicted_power entry])"
    unfolding b using xs sr by (simp add: get_col_concat_frames)
  have others: "\<forall>c \<in> set (columns base_data). c \<noteq> TARGET_COLUMN \<longrightarrow>
      (\<exists>ys. get_col base_data c = Inr ys \<and> ys \<noteq> []
           \<and> get_col base_data' c = Inr (ys @ [last ys]))"
  proof (intro ballI impI)
    fix c assume "c \<in> set (columns base_data)" "c \<noteq> TARGET_COLUMN"
    with sr obtain ys where "get_col base_data c = Inr ys" "ys \<noteq> []"
      "get_col new_row c = Inr [last ys]" by blast
    then show "\<exists>ys. get_col base_data c = Inr ys \<and> ys \<noteq> []
           \<and> get_col base_data' c = Inr (ys @ [last ys])"
      unfolding b by (auto simp: get_col_concat_frames)
  qed
  have "columns base_data' = columns base_data"
    unfolding b using sr by (simp add: columns_concat_frames)
  moreover have "index base_data' = index base_data @ [last (index base_data) + ns_per_hour]"
    unfolding b using sr ts by simp
  ultimately show ?thesis using p ts xs tgt others by blast
qed

text \<open>
  Claim C2. Whenever an iteration of the loop completes on a rolling table, the table it
  leaves is the old one with one more row: the row is stamped one hour after the last
  row, its target channel holds the fused prediction of that iteration (the value the
  iteration reports), and every other channel holds the value of the last row of the
  table the iteration started from. All 24 iterations are applications of
  \<open>rollout_step\<close> to the current rolling table.
\<close>

theorem synthesized_row_persistence:
  assumes "rollout_step m base_data = Inr (entry, base_data')"
  shows "predict_next m base_data = Inr (predicted_power entry)
       \<and> index base_data' = index base_data @ [last (index base_data) + ns_per_hour]
       \<and> timestamp entry = last (index base_data) + ns_per_hour
       \<and> columns base_data' = columns base_data
       \<and> (\<exists>xs. get_col base_data TARGET_COLUMN = Inr xs
              \<and> get_col base_data' TARGET_COLUMN = Inr (xs @ [predicted_power entry]))
       \<and> (\<forall>c \<in> set (columns base_data). c \<noteq> TARGET_COLUMN \<longrightarrow>
             (\<exists>xs. get_col base_data c = Inr xs \<and> xs \<noteq> []
                  \<and> get_col base_data' c = Inr (xs @ [last xs])))"
  using assms by (rule rollout_step_effect)

section \<open>The rollout loop\<close>

lemma rolling_table_persistence:
  assumes "rolling_table m k base_data = Inr b"
      and "get_col base_data c = Inr xs" and "c \<noteq> TARGET_COLUMN"
  shows "get_col b c = Inr (xs @ replicate k (last xs)) \<and> (0 < k \<longrightarrow> xs \<noteq> [])"
  using assms
proof (induction k arbitrary: base_data xs)
  case 0
  then show ?case by simp
next
  case (Suc k)
  from Suc.prems(1) obtain e b1 where
    step: "rollout_step m base_data = Inr (e, b1)" and rest: "rolling_table m k b1 = Inr b"
    by (auto simp: bind_err_eq_Inr)
  from Suc.prems(2) have "c \<in> set (columns base_data)"
    using get_col_Inr_iff by blast
  with rollout_step_effect[OF step] Suc.prems(2,3)
  have ne: "xs \<noteq> []" and b1: "get_col b1 c = Inr (xs @ [last xs])" by auto
  from Suc.IH[OF rest b1 Suc.prems(3)]
  have "get_col b c = Inr ((xs @ [last xs]) @ replicate k (last xs))" by simp
  with ne show ?case by (simp add: replicate_append_same)
qed

lemma last_tail_slice: "xs \<noteq> [] \<Longrightarrow> last (tail_slice n xs) = last xs"
  by (simp add: tail_slice_def)

lemma tail_slice_eq_Nil [simp]: "tail_slice n xs = [] \<longleftrightarrow> xs = []"
  by (cases xs) (auto simp: tail_slice_def)

text \<open>
  Claim C10. After \<open>k\<close> completed iterations (\<open>rolling_table m k\<close> is the rolling table
  the loop holds then), every channel other than the target consists of the values of the
  trailing 96-row slice of the historical table followed by \<open>k\<close> copies of the value in
  the last historical row: each synthesized row repeats the last real reading, and the
  exogenous channels are constant over the forecast horizon.
\<close>

theorem exogenous_channels_constant:
  assumes "rolling_table m k (iloc_tail 96 full_data) = Inr b"
      and "get_col full_data c = Inr xs" and "c \<noteq> TARGET_COLUMN"
  shows "get_col b c = Inr (tail_slice 96 xs @ replicate k (last xs))"
proof -
  from assms(2) have g: "get_col (iloc_tail 96 full_data) c = Inr (tail_slice 96 xs)"
    by (simp add: get_col_iloc_tail)
  note rp = rolling_table_persistence[OF assms(1) g assms(3)]
  show ?thesis
  proof (cases k)
    case 0
    with rp show ?thesis by simp
  next
    case (Suc j)
    with rp have "xs \<noteq> []" by simp
    with rp show ?thesis by (simp add: last_tail_slice)
  qed
qed

lemma rollout_loop_fails:
  assumes "k < n" and "rolling_table m k base_data = Inr b" and "rollout_step m b = Inl e"
  shows "rollout_loop m n base_data acc = Inl e"
  using assms
proof (induction k arbitrary: n base_data acc)
  case 0
  then obtain n' where "n = Suc n'" by (cases n) auto
  with 0 show ?case by simp
next
  case (Suc k)
  then obtain n' where n: "n = Suc n'" "k < n'" by (cases n) auto
  from Suc.prems(2) obtain e1 b1 where
    step: "rollout_step m base_data = Inr (e1, b1)" and rest: "rolling_table m k b1 = Inr b"
    by (auto simp: bind_err_eq_Inr)
  from Suc.IH[OF n(2) rest Suc.prems(3)] step n show ?case by simp
qed

lemma rollout_loop_Inr:
  assumes "rollout_loop m n base_data acc = Inr res"
  shows "\<exists>b entries. rolling_table m n base_data = Inr b
           \<and> res = acc @ entries
           \<and> map timestamp entries =
               map (\<lambda>i. last (index base_data) + (int i + 1) * ns_per_hour) [0..<n]"
  using assms
proof (induction n arbitrary: base_data acc)
  case 0
  then show ?case by simp
next
  case (Suc n)
  from Suc.prems obtain e b1 where
    step: "rollout_step m base_data = Inr (e, b1)"
    and rest: "rollout_loop m n b1 (acc @ [e]) = Inr res"
    by (auto simp: bind_err_eq_Inr)
  from rollout_step_effect[OF step]
  have ts: "timestamp e = last (index base_data) + ns_per_hour"
    and l: "last (index b1) = last (index base_data) + ns_per_hour" by auto
  from Suc.IH[OF rest] obtain b entries where
    b: "rolling_table m n b1 = Inr b" and r: "res = (acc @ [e]) @ entries"
    and t: "map timestamp entries =
         map (\<lambda>i. last (index b1) + (int i + 1) * ns_per_hour) [0..<n]"
    by blast
  have "[0..<Suc n] = 0 # map Suc [0..<n]"
    by (simp add: upt_conv_Cons map_Suc_upt del: upt_Suc)
  then have "map timestamp (e # entries) =
      map (\<lambda>i. last (index base_data) + (int i + 1) * ns_per_hour) [0..<Suc n]"
    using ts t l by (simp add: algebra_simps del: upt_Suc)
  with step b r show ?case by (intro exI[of _ b] exI[of _ "e # entries"]) simp
qed

text \<open>A failure of the prediction or of the feature derivation is a failure of the
  iteration.\<close>

lemma predict_next_fails_step:
  "predict_next m base_data = Inl e \<Longrightarrow> rollout_step m base_data = Inl e"
  by (simp add: rollout_step_def)

lemma create_features_fails_step:
  "create_features_xgb base_data TARGET_COLUMN = Inl e \<Longrightarrow> rollout_step m base_data = Inl e"
  by (simp add: rollout_step_def predict_next_def)

text \<open>
  Claim C7. If, after \<open>k < 24\<close> completed iterations, the next iteration fails with an
  exception \<open>e\<close> (in the feature derivation, in the prediction or anywhere else in the
  loop body), the forecast operation returns that failure alone: the entries collected in
  the first \<open>k\<close> iterations are not returned. The same holds for the enhanced endpoint.
\<close>

theorem rollout_is_all_or_nothing:
  assumes "k < 24"
      and "rolling_table m k (iloc_tail 96 full_data) = Inr b"
      and "create_features_xgb b TARGET_COLUMN = Inl e
           \<or> predict_next m b = Inl e
           \<or> rollout_step m b = Inl e"
  shows "get_hourly_forecast m (Some full_data) = Inl e
       \<and> get_hourly_forecast_enhanced (Some m) (Some full_data) = Inl e"
proof -
  from assms(3) have "rollout_step m b = Inl e"
    using predict_next_fails_step create_features_fails_step by blast
  from rollout_loop_fails[OF assms(1,2) this, of "[]"] show ?thesis
    by (simp add: get_hourly_forecast_def get_hourly_forecast_enhanced_def)
qed

section \<open>A forecast that completes\<close>

lemma index_create_features_xgb:
  "create_features_xgb base_data TARGET_COLUMN = Inr feats \<Longrightarrow> index feats = index base_data"
proof -
  assume a: "create_features_xgb base_data TARGET_COLUMN = Inr feats"
  then obtain xs where xs: "get_col base_data TARGET_COLUMN = Inr xs"
    by (auto simp: create_features_xgb_def get_col_set_col TARGET_COLUMN_def bind_err_eq_Inr)
  have nc: "TARGET_COLUMN
      \<notin> {''hour'', ''dayofweek'', ''month'', ''quarter'', ''year'', ''dayofyear''}"
    by (simp add: TARGET_COLUMN_def)
  from a show ?thesis unfolding create_features_xgb_eq[OF xs nc] by auto
qed

lemma create_features_xgb_succeeds:
  "TARGET_COLUMN \<in> set (columns base_data) \<Longrightarrow>
     \<exists>feats. create_features_xgb base_data TARGET_COLUMN = Inr feats"
proof -
  assume "TARGET_COLUMN \<in> set (columns base_data)"
  then obtain xs where xs: "get_col base_data TARGET_COLUMN = Inr xs"
    using get_col_Inr_iff by blast
  have nc: "TARGET_COLUMN
      \<notin> {''hour'', ''dayofweek'', ''month'', ''quarter'', ''year'', ''dayofyear''}"
    by (simp add: TARGET_COLUMN_def)
  show ?thesis using create_features_xgb_eq[OF xs nc] by simp
qed

lemma length_tail_slice_one: "xs \<noteq> [] \<Longrightarrow> length (tail_slice (Suc 0) xs) = Suc 0"
  by (cases xs) (auto simp: tail_slice_def)

lemma predict_next_succeeds:
  assumes m: "models_respond m"
      and cs: "set FEATURES_LSTM \<subseteq> set (columns base_data)"
      and ne: "index base_data \<noteq> []"
  shows "\<exists>p. predict_next m base_data = Inr p"
proof -
  from cs have t: "TARGET_COLUMN \<in> set (columns base_data)"
    by (auto simp: FEATURES_LSTM_def TARGET_COLUMN_def)
  from create_features_xgb_succeeds[OF t] obtain feats where
    feats: "create_features_xgb base_data TARGET_COLUMN = Inr feats" by blast
  from select_total[OF cs] obtain g where g: "select FEATURES_LSTM base_data = Inr g" by blast
  then have w: "lstm_window base_data = Inr (iloc_tail N_LOOKBACK g)"
    by (simp add: lstm_window_def)
  have "set FEATURES_XGB \<subseteq> set (columns (iloc_tail 1 feats))"
    using columns_create_features_xgb[OF feats] cs
    by (auto simp: FEATURES_XGB_def FEATURES_LSTM_def TARGET_COLUMN_def)
  from select_total[OF this] obtain X where X: "select FEATURES_XGB (iloc_tail 1 feats) = Inr X"
    by blast
  have "nrows X = 1"
    using select_Inr[OF X] index_create_features_xgb[OF feats] ne
    by (simp add: nrows_def length_tail_slice_one)
  then obtain p1 where p1: "model_xgb m X = Inr [p1]"
    using m unfolding models_respond_def by blast
  obtain M where M: "scaler_x m (iloc_tail N_LOOKBACK g) = Inr M"
    using m unfolding models_respond_def by blast
  obtain s where s: "model_lstm m [M] = Inr [[s]]"
    using m unfolding models_respond_def by blast
  obtain p2 where p2: "scaler_y_inv m [[s]] = Inr [[p2]]"
    using m unfolding models_respond_def by blast
  have "nrows (X_meta p1 p2) = 1" by (simp add: X_meta_def nrows_def)
  then obtain p where p: "model_fusion m (X_meta p1 p2) = Inr [p]"
    using m unfolding models_respond_def by blast
  have "predict_with m base_data feats = Inr p"
    by (simp add: predict_with_def w X p1 M s p2 p first_elem_def del: One_nat_def)
  with feats show ?thesis by (simp add: predict_next_def)
qed

lemma get_col_nonempty:
  assumes "list_all (\<lambda>(c, xs). xs \<noteq> []) (cols f)" and "get_col f c = Inr xs"
  shows "xs \<noteq> []"
proof -
  from assms(2) have "(c, xs) \<in> set (cols f)"
    by (auto simp: get_col_def split: option.splits dest: map_of_SomeD)
  with assms(1) show ?thesis by (auto simp: list_all_iff)
qed

lemma carry_forward_succeeds:
  assumes "set cs \<subseteq> set (columns base_data)"
      and "list_all (\<lambda>(c, xs). xs \<noteq> []) (cols base_data)"
  shows "\<exists>r. carry_forward cs base_data new_row = Inr r"
  using assms(1)
proof (induction cs arbitrary: new_row)
  case Nil
  then show ?case by simp
next
  case (Cons col rest)
  then obtain xs where xs: "get_col base_data col = Inr xs"
    using get_col_Inr_iff[of base_data col] by auto
  with assms(2) have "xs \<noteq> []" by (rule get_col_nonempty)
  with xs Cons show ?case by (simp add: last_elem_def)
qed

lemma synth_row_succeeds:
  assumes "TARGET_COLUMN \<in> set (columns base_data)"
      and "list_all (\<lambda>(c, xs). xs \<noteq> []) (cols base_data)"
  shows "\<exists>r. synth_row base_data ts p = Inr r"
proof -
  let ?r1 = "(iloc_tail 1 base_data)\<lparr>index := [ts]\<rparr>"
  have "columns ?r1 = columns base_data"
    by (simp add: columns_def iloc_tail_def comp_def case_prod_unfold)
  with assms(1) have "columns (set_col_scalar TARGET_COLUMN p ?r1) = columns base_data"
    by (simp add: columns_set_col_scalar)
  then show ?thesis
    using carry_forward_succeeds[OF _ assms(2), of "columns base_data"]
    by (simp add: synth_row_def Let_def)
qed

lemma rollout_step_succeeds:
  assumes m: "models_respond m"
      and cs: "set FEATURES_LSTM \<subseteq> set (columns base_data)"
      and ne: "index base_data \<noteq> []"
      and cn: "list_all (\<lambda>(c, xs). xs \<noteq> []) (cols base_data)"
      and tb: "last (index base_data) + ns_per_hour \<le> timestamp_max"
  shows "\<exists>entry base_data'. rollout_step m base_data = Inr (entry, base_data')"
proof -
  from predict_next_succeeds[OF m cs ne] obtain p where p: "predict_next m base_data = Inr p"
    by blast
  from cs have t: "TARGET_COLUMN \<in> set (columns base_data)"
    by (auto simp: FEATURES_LSTM_def TARGET_COLUMN_def)
  from synth_row_succeeds[OF t cn] obtain r where
    r: "synth_row base_data (last (index base_data) + ns_per_hour) p = Inr r" by blast
  show ?thesis
    using p ne tb r by (simp add: rollout_step_def last_elem_def add_hour_def)
qed

lemma rollout_step_keeps_nonempty:
  assumes step: "rollout_step m base_data = Inr (entry, base_data')"
      and cn: "list_all (\<lambda>(c, xs). xs \<noteq> []) (cols base_data)"
  shows "list_all (\<lambda>(c, xs). xs \<noteq> []) (cols base_data')"
proof -
  from rollout_step_Inr[OF step] obtain new_row where
    ne: "index base_data \<noteq> []"
    and b: "base_data' = concat_frames base_data new_row" by blast
  show ?thesis
    unfolding b using cn ne
    by (auto simp: concat_frames_def list_all_iff nrows_def)
qed

lemma rollout_loop_succeeds:
  assumes m: "models_respond m"
  shows "set FEATURES_LSTM \<subseteq> set (columns base_data) \<Longrightarrow> index base_data \<noteq> [] \<Longrightarrow>
         list_all (\<lambda>(c, xs). xs \<noteq> []) (cols base_data) \<Longrightarrow>
         last (index base_data) + int n * ns_per_hour \<le> timestamp_max \<Longrightarrow>
         \<exists>res. rollout_loop m n base_data acc = Inr res"
proof (induction n arbitrary: base_data acc)
  case 0
  then show ?case by simp
next
  case (Suc n)
  have h: "0 \<le> int n * ns_per_hour" by (simp add: ns_per_hour_def)
  from Suc.prems(4) h have tb: "last (index base_data) + ns_per_hour \<le> timestamp_max"
    by (simp add: algebra_simps)
  from rollout_step_succeeds[OF m Suc.prems(1,2,3) tb] obtain e b1 where
    step: "rollout_step m base_data = Inr (e, b1)" by blast
  note eff = rollout_step_effect[OF step]
  have c1: "set FEATURES_LSTM \<subseteq> set (columns b1)" using eff Suc.prems(1) by simp
  have i1: "index b1 \<noteq> []" using eff by simp
  have n1: "list_all (\<lambda>(c, xs). xs \<noteq> []) (cols b1)"
    using rollout_step_keeps_nonempty[OF step Suc.prems(3)] .
  have "last (index b1) = last (index base_data) + ns_per_hour" using eff by simp
  with Suc.prems(4) have t1: "last (index b1) + int n * ns_per_hour \<le> timestamp_max"
    by (simp add: algebra_simps)
  from Suc.IH[OF c1 i1 n1 t1, of "acc @ [e]"] step show ?case by simp
qed



section \<open>The rollout on the sample tables\<close>

lemma const_models_respond: "models_respond (const_models v)"
  unfolding models_respond_def
proof (intro conjI allI impI)
  fix X :: frame assume "nrows X = 1"
  then obtain t where t: "index X = [t]" by (auto simp: nrows_def length_Suc_conv)
  from t show "\<exists>p. model_xgb (const_models v) X = Inr [p]" by (simp add: const_models_def)
  from t show "\<exists>p. model_fusion (const_models v) X = Inr [p]" by (simp add: const_models_def)
next
  fix W show "\<exists>M. scaler_x (const_models v) W = Inr M" by (simp add: const_models_def)
next
  fix M show "\<exists>s. model_lstm (const_models v) [M] = Inr [[s]]" by (simp add: const_models_def)
next
  fix s show "\<exists>p. scaler_y_inv (const_models v) [[s]] = Inr [[p]]" by (simp add: const_models_def)
qed

lemma iloc_tail_two_row_table: "iloc_tail 96 two_row_table = two_row_table"
  by (simp add: iloc_tail_def tail_slice_def two_row_table_def)

lemma const_step_two_row:
  "rollout_step (const_models 400) two_row_table =
     Inr (\<lparr>timestamp = 7200000000000, predicted_power = Some 400\<rparr>, three_row_table)"
  by code_simp

lemma const_step_three_row:
  "rollout_step (const_models 400) three_row_table =
     Inr (\<lparr>timestamp = 10800000000000, predicted_power = Some 400\<rparr>, four_row_table)"
  by code_simp

lemma fragile_step_two_row:
  "rollout_step (fragile_models 400) two_row_table =
     Inr (\<lparr>timestamp = 7200000000000, predicted_power = Some 400\<rparr>, three_row_table)"
  by code_simp

lemma fragile_step_three_row:
  "rollout_step (fragile_models 400) three_row_table =
     Inr (\<lparr>timestamp = 10800000000000, predicted_power = Some 400\<rparr>, four_row_table)"
  by code_simp

lemma fragile_predict_four_row:
  "predict_next (fragile_models 400) four_row_table = Inl (ModelError ''xgboost'')"
  by code_simp

lemma const_table_after_two_steps:
  "rolling_table (const_models 400) 2 (iloc_tail 96 two_row_table) = Inr four_row_table"
  by (simp add: numeral_2_eq_2 iloc_tail_two_row_table const_step_two_row const_step_three_row)

lemma fragile_table_after_two_steps:
  "rolling_table (fragile_models 400) 2 (iloc_tail 96 two_row_table) = Inr four_row_table"
  by (simp add: numeral_2_eq_2 iloc_tail_two_row_table fragile_step_two_row
      fragile_step_three_row)



text \<open>The second iteration on the two-row sample: the synthesized fourth row is stamped
  03:00, holds the prediction 400 in the target channel and repeats the third row in the
  other channels, NaN included.\<close>

theorem synthesized_row_persistence_witness:
  "rollout_step (const_models 400) three_row_table =
     Inr (\<lparr>timestamp = 10800000000000, predicted_power = Some 400\<rparr>, four_row_table)
   \<and> predict_next (const_models 400) three_row_table = Inr (Some 400)
   \<and> index four_row_table = index three_row_table @ [10800000000000]
   \<and> get_col three_row_table ''Phase3_power'' = Inr [Some 300, Some 310, Some 400]
   \<and> get_col four_row_table ''Phase3_power'' = Inr [Some 300, Some 310, Some 400, Some 400]
   \<and> get_col three_row_table ''Phase3_pf'' = Inr [Some 1, None, None]
   \<and> get_col four_row_table ''Phase3_pf'' = Inr [Some 1, None, None, None]
   \<and> get_col three_row_table ''Phase1_power'' = Inr [Some 11, Some 12, Some 12]
   \<and> get_col four_row_table ''Phase1_power'' = Inr [Some 11, Some 12, Some 12, Some 12]"
proof -
  note w = synthesized_row_persistence[OF const_step_three_row]
  from w have p: "predict_next (const_models 400) three_row_table = Inr (Some 400)"
    by simp
  have g: "get_col three_row_table ''Phase3_power'' = Inr [Some 300, Some 310, Some 400]"
    "get_col three_row_table ''Phase3_pf'' = Inr [Some 1, None, None]"
    "get_col three_row_table ''Phase1_power'' = Inr [Some 11, Some 12, Some 12]"
    by (simp_all add: get_col_def three_row_table_def)
  have c: "''Phase3_pf'' \<in> set (columns three_row_table)"
    "''Phase1_power'' \<in> set (columns three_row_table)"
    "''Phase3_pf'' \<noteq> TARGET_COLUMN" "''Phase1_power'' \<noteq> TARGET_COLUMN"
    by (simp_all add: columns_def three_row_table_def TARGET_COLUMN_def)
  from w have i: "index four_row_table = index three_row_table @ [10800000000000]"
    by (simp add: three_row_table_def ns_per_hour_def)
  from w g(1) have t: "get_col four_row_table ''Phase3_power''
      = Inr [Some 300, Some 310, Some 400, Some 400]"
    by (simp add: TARGET_COLUMN_def)
  from w c have "\<exists>xs. get_col three_row_table ''Phase3_pf'' = Inr xs \<and> xs \<noteq> []
       \<and> get_col four_row_table ''Phase3_pf'' = Inr (xs @ [last xs])"
    by blast
  with g(2) have a: "get_col four_row_table ''Phase3_pf'' = Inr [Some 1, None, None, None]"
    by simp
  from w c have "\<exists>xs. get_col three_row_table ''Phase1_power'' = Inr xs \<and> xs \<noteq> []
       \<and> get_col four_row_table ''Phase1_power'' = Inr (xs @ [last xs])"
    by blast
  with g(3) have b: "get_col four_row_table ''Phase1_power''
      = Inr [Some 11, Some 12, Some 12, Some 12]"
    by simp
  from const_step_three_row p i g t a b show ?thesis by simp
qed

text \<open>After two iterations on the two-row sample the current of phase 2 reads 1, 2, 2, 2:
  both synthesized rows repeat the last historical reading.\<close>

theorem exogenous_channels_constant_witness:
  "rolling_table (const_models 400) 2 (iloc_tail 96 two_row_table) = Inr four_row_table
   \<and> get_col two_row_table ''Phase2_current'' = Inr [Some 1, Some 2]
   \<and> ''Phase2_current'' \<noteq> TARGET_COLUMN
   \<and> get_col four_row_table ''Phase2_current'' = Inr [Some 1, Some 2, Some 2, Some 2]"
proof -
  have g: "get_col two_row_table ''Phase2_current'' = Inr [Some 1, Some 2]"
    by (simp add: get_col_def two_row_table_def)
  have n: "''Phase2_current'' \<noteq> TARGET_COLUMN" by (simp add: TARGET_COLUMN_def)
  from exogenous_channels_constant[OF const_table_after_two_steps g n]
  have "get_col four_row_table ''Phase2_current'' = Inr [Some 1, Some 2, Some 2, Some 2]"
    by (simp add: tail_slice_def numeral_2_eq_2)
  with const_table_after_two_steps g n show ?thesis by simp
qed

text \<open>With the tree regressor that raises on a lag of 400, two iterations complete on the
  two-row sample and the prediction of the third one fails: both endpoints return the
  failure and none of the two entries already collected.\<close>

theorem rollout_is_all_or_nothing_witness:
  "rolling_table (fragile_models 400) 2 (iloc_tail 96 two_row_table) = Inr four_row_table
   \<and> predict_next (fragile_models 400) four_row_table = Inl (ModelError ''xgboost'')
   \<and> get_hourly_forecast (fragile_models 400) (Some two_row_table)
       = Inl (ModelError ''xgboost'')
   \<and> get_hourly_forecast_enhanced (Some (fragile_models 400)) (Some two_row_table)
       = Inl (ModelError ''xgboost'')"
proof -
  have k: "(2::nat) < 24" by simp
  have f: "create_features_xgb four_row_table TARGET_COLUMN = Inl (ModelError ''xgboost'')
           \<or> predict_next (fragile_models 400) four_row_table = Inl (ModelError ''xgboost'')
           \<or> rollout_step (fragile_models 400) four_row_table = Inl (ModelError ''xgboost'')"
    using fragile_predict_four_row by simp
  from rollout_is_all_or_nothing[OF k fragile_table_after_two_steps f]
    fragile_table_after_two_steps fragile_predict_four_row
  show ?thesis by simp
qed



section \<open>Requests on the store of objects\<close>

text \<open>The operations on the store, in the form the proofs below use them: what each one
  returns and the store it leaves.\<close>

lemma copy_st_eq: "copy_st r h = (Inr (length h), h @ [h ! r])"
  by (simp add: copy_st_def bind_st_def read_st_def new_st_def)

lemma iloc_tail_copy_st_eq:
  "iloc_tail_copy_st n r h = (Inr (length h), h @ [iloc_tail n (h ! r)])"
  by (simp add: iloc_tail_copy_st_def bind_st_def read_st_def new_st_def)

lemma concat_st_eq:
  "concat_st a b h = (Inr (length h), h @ [concat_frames (h ! a) (h ! b)])"
  by (simp add: concat_st_def bind_st_def read_st_def new_st_def)

lemma assign_field_st_last:
  "assign_field_st (length h) c field (h @ [g]) = (Inr (), h @ [set_col c (int_col field g) g])"
  by (simp add: assign_field_st_def bind_st_def read_st_def assign_col_st_def)

lemma assign_derived_st_last:
  "assign_derived_st (length h) c t k (h @ [g]) =
     (case get_col g t of
        Inl e \<Rightarrow> (Inl e, h @ [g])
      | Inr xs \<Rightarrow> (Inr (), h @ [set_col c (k xs) g]))"
  by (simp add: assign_derived_st_def bind_st_def read_st_def assign_col_st_def lift_st_def
      split: sum.splits)

lemma bind_copy_st: "bind_st (copy_st r) k h = k (length h) (h @ [h ! r])"
  by (simp add: bind_st_def copy_st_eq)

lemma bind_assign_field_st_last:
  "bind_st (assign_field_st (length h) c field) k (h @ [g])
     = k () (h @ [set_col c (int_col field g) g])"
  by (simp add: bind_st_def assign_field_st_last)

lemma bind_assign_derived_st_last:
  "bind_st (assign_derived_st (length h) c t d) k (h @ [g]) =
     (case get_col g t of
        Inl e \<Rightarrow> (Inl e, h @ [g])
      | Inr xs \<Rightarrow> k () (h @ [set_col c (d xs) g]))"
  by (simp add: bind_st_def assign_derived_st_last split: sum.splits)

lemma create_features_xgb_st_eq:
  "\<exists>g. create_features_xgb_st df target_col h =
          (map_sum id (\<lambda>_. length h) (create_features_xgb (h ! df) target_col), h @ [g])
      \<and> (\<forall>f. create_features_xgb (h ! df) target_col = Inr f \<longrightarrow> g = f)"
  by (simp add: create_features_xgb_st_def create_features_xgb_def Let_def
      bind_copy_st bind_assign_field_st_last bind_assign_derived_st_last return_st_def
      bind_err_def split: sum.splits)


lemma create_features_xgb_st_Inr:
  assumes "create_features_xgb (h ! df) target_col = Inr f"
  shows "create_features_xgb_st df target_col h = (Inr (length h), h @ [f])"
  using create_features_xgb_st_eq[of df target_col h] assms by auto

lemma create_features_xgb_st_Inl:
  assumes "create_features_xgb (h ! df) target_col = Inl e"
  shows "\<exists>g. create_features_xgb_st df target_col h = (Inl e, h @ [g])"
  using create_features_xgb_st_eq[of df target_col h] assms by auto

lemma bind_read_st: "bind_st (read_st r) k h = k (h ! r) h"
  by (simp add: bind_st_def read_st_def)

lemma bind_lift_st:
  "bind_st (lift_st x) k h = (case x of Inl e \<Rightarrow> (Inl e, h) | Inr v \<Rightarrow> k v h)"
  by (simp add: bind_st_def lift_st_def split: sum.splits)

lemma bind_iloc_tail_copy_st:
  "bind_st (iloc_tail_copy_st n r) k h = k (length h) (h @ [iloc_tail n (h ! r)])"
  by (simp add: bind_st_def iloc_tail_copy_st_eq)

lemma bind_assign_index_st:
  "bind_st (assign_index_st r idx) k h = k () (h[r := (h ! r)\<lparr>index := idx\<rparr>])"
  by (simp add: bind_st_def assign_index_st_def)

lemma bind_assign_scalar_st:
  "bind_st (assign_scalar_st r c v) k h = k () (h[r := set_col_scalar c v (h ! r)])"
  by (simp add: bind_st_def assign_scalar_st_def)

lemma bind_concat_st:
  "bind_st (concat_st a b) k h = k (length h) (h @ [concat_frames (h ! a) (h ! b)])"
  by (simp add: bind_st_def concat_st_eq)

lemma carry_forward_st_eq:
  "b < length h \<Longrightarrow> nr < length h \<Longrightarrow> b \<noteq> nr \<Longrightarrow>
     \<exists>g. carry_forward_st cs b nr h =
            (map_sum (\<lambda>e. e) (\<lambda>_. ()) (carry_forward cs (h ! b) (h ! nr)), h[nr := g])
        \<and> (\<forall>f. carry_forward cs (h ! b) (h ! nr) = Inr f \<longrightarrow> g = f)"
proof (induction cs arbitrary: h)
  case Nil
  then show ?case
    by (intro exI[of _ "h ! nr"]) (simp add: return_st_def)
next
  case (Cons col rest)
  show ?case
  proof (cases "col = TARGET_COLUMN")
    case True
    with Cons.IH[OF Cons.prems] show ?thesis by simp
  next
    case False
    show ?thesis
    proof (cases "get_col (h ! b) col")
      case (Inl e)
      with False show ?thesis
        by (intro exI[of _ "h ! nr"]) (simp add: bind_read_st bind_lift_st)
    next
      case xs: (Inr xs)
      show ?thesis
      proof (cases "last_elem xs")
        case (Inl e)
        with False xs show ?thesis
          by (intro exI[of _ "h ! nr"]) (simp add: bind_read_st bind_lift_st)
      next
        case v: (Inr v)
        let ?h1 = "h[nr := set_col_scalar col v (h ! nr)]"
        have l: "b < length ?h1" "nr < length ?h1" using Cons.prems by simp_all
        from Cons.IH[OF l Cons.prems(3)] obtain g where
          g: "carry_forward_st rest b nr ?h1 =
                (map_sum (\<lambda>e. e) (\<lambda>_. ()) (carry_forward rest (?h1 ! b) (?h1 ! nr)), ?h1[nr := g])"
          and gf: "\<forall>f. carry_forward rest (?h1 ! b) (?h1 ! nr) = Inr f \<longrightarrow> g = f"
          by blast
        have n: "?h1 ! b = h ! b" "?h1 ! nr = set_col_scalar col v (h ! nr)"
          using Cons.prems by simp_all
        from g gf False xs v show ?thesis
          unfolding n
          by (intro exI[of _ g]) (simp add: bind_read_st bind_lift_st bind_assign_scalar_st)
      qed
    qed
  qed
qed


lemma bind_create_features_xgb_st_Inr:
  "create_features_xgb (h ! df) target_col = Inr f \<Longrightarrow>
     bind_st (create_features_xgb_st df target_col) k h = k (length h) (h @ [f])"
  by (simp add: bind_st_def create_features_xgb_st_Inr)

lemma rollout_step_st_sim:
  assumes b: "b < length h"
  shows "\<exists>ext. rollout_step_st m b h =
            (case rollout_step m (h ! b) of
               Inl e \<Rightarrow> Inl e
             | Inr (entry, f) \<Rightarrow> Inr (entry, length h + 2), h @ ext)
        \<and> (\<forall>entry f. rollout_step m (h ! b) = Inr (entry, f) \<longrightarrow>
              length ext = 3 \<and> ext ! 2 = f)"
proof (cases "create_features_xgb (h ! b) TARGET_COLUMN")
  case (Inl e)
  from create_features_xgb_st_Inl[OF Inl] obtain g where
    "create_features_xgb_st b TARGET_COLUMN h = (Inl e, h @ [g])" ..
  then have "rollout_step_st m b h = (Inl e, h @ [g])"
    by (simp add: rollout_step_st_def bind_st_def)
  moreover from Inl have "rollout_step m (h ! b) = Inl e"
    by (simp add: rollout_step_def predict_next_def)
  ultimately show ?thesis by (intro exI[of _ "[g]"]) simp
next
  case feats: (Inr feats)
  note bcf = bind_create_features_xgb_st_Inr[OF feats]
  have pn: "predict_next m (h ! b) = predict_with m (h ! b) feats"
    by (simp add: predict_next_def feats)
  show ?thesis
  proof (cases "predict_with m (h ! b) feats")
    case (Inl e)
    with b have "rollout_step_st m b h = (Inl e, h @ [feats])"
      by (simp add: rollout_step_st_def bcf bind_read_st bind_lift_st nth_append)
    moreover from Inl have "rollout_step m (h ! b) = Inl e"
      by (simp add: rollout_step_def pn)
    ultimately show ?thesis by (intro exI[of _ "[feats]"]) simp
  next
    case pred: (Inr pred_fusion)
    show ?thesis
    proof (cases "last_elem (index (h ! b))")
      case (Inl e)
      with b pred have "rollout_step_st m b h = (Inl e, h @ [feats])"
        by (simp add: rollout_step_st_def bcf bind_read_st bind_lift_st nth_append)
      moreover from Inl pred have "rollout_step m (h ! b) = Inl e"
        by (simp add: rollout_step_def pn)
      ultimately show ?thesis by (intro exI[of _ "[feats]"]) simp
    next
      case lt: (Inr last_timestamp)
      show ?thesis
      proof (cases "add_hour last_timestamp")
        case (Inl e)
        with b pred lt have "rollout_step_st m b h = (Inl e, h @ [feats])"
          by (simp add: rollout_step_st_def bcf bind_read_st bind_lift_st nth_append)
        moreover from Inl pred lt have "rollout_step m (h ! b) = Inl e"
          by (simp add: rollout_step_def pn)
        ultimately show ?thesis by (intro exI[of _ "[feats]"]) simp
      next
        case nt: (Inr next_timestamp)
        let ?nr = "Suc (length h)"
        let ?row = "set_col_scalar TARGET_COLUMN pred_fusion
                      ((iloc_tail 1 (h ! b))\<lparr>index := [next_timestamp]\<rparr>)"
        let ?h4 = "h @ [feats, ?row]"
        let ?entry = "\<lparr>timestamp = next_timestamp, predicted_power = pred_fusion\<rparr>"
        have st: "rollout_step_st m b h =
            bind_st (carry_forward_st (columns ?row) b ?nr) (\<lambda>_.
            bind_st (concat_st b ?nr) (\<lambda>base_data'. return_st (?entry, base_data'))) ?h4"
          using b pred lt nt
          by (simp add: rollout_step_st_def bcf bind_read_st bind_lift_st nth_append
              bind_iloc_tail_copy_st bind_assign_index_st bind_assign_scalar_st
              list_update_append)
        have sr: "synth_row (h ! b) next_timestamp pred_fusion
                    = carry_forward (columns ?row) (h ! b) ?row"
          by (simp add: synth_row_def Let_def)
        have l: "b < length ?h4" "?nr < length ?h4" "b \<noteq> ?nr" using b by simp_all
        have n: "?h4 ! b = h ! b" "?h4 ! ?nr = ?row" using b by (simp_all add: nth_append)
        from carry_forward_st_eq[OF l, of "columns ?row"] obtain g where
          cf: "carry_forward_st (columns ?row) b ?nr ?h4 =
                 (map_sum (\<lambda>e. e) (\<lambda>_. ()) (carry_forward (columns ?row) (h ! b) ?row),
                  ?h4[?nr := g])"
          and gf: "\<forall>f. carry_forward (columns ?row) (h ! b) ?row = Inr f \<longrightarrow> g = f"
          unfolding n by blast
        have upd: "?h4[?nr := g] = h @ [feats, g]" by (simp add: list_update_append)
        show ?thesis
        proof (cases "carry_forward (columns ?row) (h ! b) ?row")
          case (Inl e)
          with cf upd have "rollout_step_st m b h = (Inl e, h @ [feats, g])"
            by (simp add: st bind_st_def)
          moreover from Inl pred lt nt have "rollout_step m (h ! b) = Inl e"
            by (simp add: rollout_step_def pn sr)
          ultimately show ?thesis by (intro exI[of _ "[feats, g]"]) simp
        next
          case nr: (Inr new_row)
          with gf have g: "g = new_row" by simp
          from nr cf upd b have "rollout_step_st m b h =
              (Inr (?entry, length h + 2),
               h @ [feats, new_row, concat_frames (h ! b) new_row])"
            by (simp add: st g bind_st_def[of "carry_forward_st _ _ _"] bind_concat_st
                return_st_def nth_append)
          moreover from nr pred lt nt have
            "rollout_step m (h ! b) = Inr (?entry, concat_frames (h ! b) new_row)"
            by (simp add: rollout_step_def pn sr)
          ultimately show ?thesis
            by (intro exI[of _ "[feats, new_row, concat_frames (h ! b) new_row]"]) simp
        qed
      qed
    qed
  qed
qed

lemma rollout_loop_st_sim:
  "b < length h \<Longrightarrow>
     \<exists>ext. rollout_loop_st m n b acc h = (rollout_loop m n (h ! b) acc, h @ ext)"
proof (induction n arbitrary: b h acc)
  case 0
  then show ?case by (intro exI[of _ "[]"]) (simp add: return_st_def)
next
  case (Suc n)
  from rollout_step_st_sim[OF Suc.prems, of m] obtain ext where
    st: "rollout_step_st m b h =
           (case rollout_step m (h ! b) of
              Inl e \<Rightarrow> Inl e
            | Inr (entry, f) \<Rightarrow> Inr (entry, length h + 2), h @ ext)"
    and ok: "\<forall>entry f. rollout_step m (h ! b) = Inr (entry, f) \<longrightarrow>
               length ext = 3 \<and> ext ! 2 = f"
    by blast
  show ?case
  proof (cases "rollout_step m (h ! b)")
    case (Inl e)
    with st show ?thesis by (intro exI[of _ ext]) (simp add: bind_st_def)
  next
    case (Inr p)
    obtain entry f where p: "p = (entry, f)" by (cases p)
    from ok Inr p have e: "length ext = 3" "ext ! 2 = f" by simp_all
    then have l: "length h + 2 < length (h @ ext)" and n: "(h @ ext) ! (length h + 2) = f"
      by (simp_all add: nth_append)
    from Suc.IH[OF l, of "acc @ [entry]"] obtain ext' where
      "rollout_loop_st m n (length h + 2) (acc @ [entry]) (h @ ext)
         = (rollout_loop m n f (acc @ [entry]), (h @ ext) @ ext')"
      unfolding n by blast
    with st Inr p show ?thesis
      by (intro exI[of _ "ext @ ext'"]) (simp add: bind_st_def)
  qed
qed

lemma get_hourly_forecast_st_sim:
  "\<exists>ext. get_hourly_forecast_st m (Some fd) h
           = (get_hourly_forecast m (Some (h ! fd)), h @ ext)"
proof -
  let ?h1 = "h @ [iloc_tail 96 (h ! fd)]"
  have "length h < length ?h1" by simp
  from rollout_loop_st_sim[OF this, of m 24 "[]"] obtain ext where
    "rollout_loop_st m 24 (length h) [] ?h1
       = (rollout_loop m 24 (iloc_tail 96 (h ! fd)) [], ?h1 @ ext)"
    by auto
  then show ?thesis
    by (intro exI[of _ "iloc_tail 96 (h ! fd) # ext"])
       (simp add: get_hourly_forecast_st_def get_hourly_forecast_def bind_iloc_tail_copy_st)
qed

lemma get_hourly_forecast_enhanced_st_sim:
  "\<exists>ext. get_hourly_forecast_enhanced_st ms fdo h
           = (get_hourly_forecast_enhanced ms (map_option (\<lambda>fd. h ! fd) fdo), h @ ext)"
proof (cases "\<exists>fd m. fdo = Some fd \<and> ms = Some m")
  case True
  then obtain fd m where s: "fdo = Some fd" "ms = Some m" by blast
  let ?h1 = "h @ [iloc_tail 96 (h ! fd)]"
  have "length h < length ?h1" by simp
  from rollout_loop_st_sim[OF this, of m 24 "[]"] obtain ext where
    "rollout_loop_st m 24 (length h) [] ?h1
       = (rollout_loop m 24 (iloc_tail 96 (h ! fd)) [], ?h1 @ ext)"
    by auto
  then show ?thesis
    by (intro exI[of _ "iloc_tail 96 (h ! fd) # ext"])
       (simp add: s get_hourly_forecast_enhanced_st_def get_hourly_forecast_enhanced_def
          bind_iloc_tail_copy_st)
next
  case False
  then show ?thesis
    by (intro exI[of _ "[]"])
       (auto simp: get_hourly_forecast_enhanced_st_def get_hourly_forecast_enhanced_def
          lift_st_def split: option.splits)
qed

text \<open>
  Claim C8. Feature derivation has no side effect and its result depends on the value of
  its input only. A call on the object \<open>df1\<close> of a store leaves every object of the store
  as it was, the input among them, and allocates one new object; what it returns is that
  new object, holding the table \<open>create_features_xgb\<close> computes from the input table, or
  the exception \<open>create_features_xgb\<close> raises. A second call, in any store, on an object
  holding an equal table returns an equal table (or raises the same exception).
\<close>

theorem create_features_xgb_is_pure:
  assumes "df1 < length h1" and "df2 < length h2" and "h1 ! df1 = h2 ! df2"
      and "create_features_xgb_st df1 target_col h1 = (r1, h1')"
      and "create_features_xgb_st df2 target_col h2 = (r2, h2')"
  shows "take (length h1) h1' = h1
       \<and> h1' ! df1 = h1 ! df1
       \<and> length h1' = Suc (length h1)
       \<and> (\<forall>p. r1 = Inr p \<longrightarrow> p = length h1)
       \<and> map_sum (\<lambda>e. e) (\<lambda>p. h1' ! p) r1 = create_features_xgb (h1 ! df1) target_col
       \<and> map_sum (\<lambda>e. e) (\<lambda>p. h1' ! p) r1 = map_sum (\<lambda>e. e) (\<lambda>p. h2' ! p) r2"
proof -
  from create_features_xgb_st_eq[of df1 target_col h1] assms(4) obtain g1 where
    r1: "r1 = map_sum id (\<lambda>_. length h1) (create_features_xgb (h1 ! df1) target_col)"
    and h1': "h1' = h1 @ [g1]"
    and g1: "\<forall>f. create_features_xgb (h1 ! df1) target_col = Inr f \<longrightarrow> g1 = f"
    by auto
  from create_features_xgb_st_eq[of df2 target_col h2] assms(5) obtain g2 where
    r2: "r2 = map_sum id (\<lambda>_. length h2) (create_features_xgb (h2 ! df2) target_col)"
    and h2': "h2' = h2 @ [g2]"
    and g2: "\<forall>f. create_features_xgb (h2 ! df2) target_col = Inr f \<longrightarrow> g2 = f"
    by auto
  have a: "map_sum (\<lambda>e. e) (\<lambda>p. h1' ! p) r1 = create_features_xgb (h1 ! df1) target_col"
    using g1 by (cases "create_features_xgb (h1 ! df1) target_col") (simp_all add: r1 h1')
  have b: "map_sum (\<lambda>e. e) (\<lambda>p. h2' ! p) r2 = create_features_xgb (h2 ! df2) target_col"
    using g2 by (cases "create_features_xgb (h2 ! df2) target_col") (simp_all add: r2 h2')
  have c: "\<forall>p. r1 = Inr p \<longrightarrow> p = length h1"
    by (cases "create_features_xgb (h1 ! df1) target_col") (simp_all add: r1)
  from a b c assms(1,3) show ?thesis by (simp add: h1' nth_append)
qed

text \<open>Two calls in a row on the two-row sample, the second one in the store the first one
  left: the sample is still the object 0, and the objects 1 and 2 the calls returned hold
  the same enriched table.\<close>

theorem create_features_xgb_is_pure_witness:
  "\<exists>h1' h2' f.
      create_features_xgb_st 0 TARGET_COLUMN [two_row_table] = (Inr 1, h1')
    \<and> create_features_xgb_st 0 TARGET_COLUMN h1' = (Inr 2, h2')
    \<and> h1' ! 0 = two_row_table \<and> h2' ! 0 = two_row_table
    \<and> create_features_xgb two_row_table TARGET_COLUMN = Inr f
    \<and> h1' ! 1 = f \<and> h2' ! 1 = f \<and> h2' ! 2 = f"
proof -
  obtain r1 h1' where c1: "create_features_xgb_st 0 TARGET_COLUMN [two_row_table] = (r1, h1')"
    by (cases "create_features_xgb_st 0 TARGET_COLUMN [two_row_table]")
  obtain r2 h2' where c2: "create_features_xgb_st 0 TARGET_COLUMN h1' = (r2, h2')"
    by (cases "create_features_xgb_st 0 TARGET_COLUMN h1'")
  have "TARGET_COLUMN \<in> set (columns two_row_table)"
    by (simp add: TARGET_COLUMN_def columns_def two_row_table_def)
  from create_features_xgb_succeeds[OF this] obtain f where
    f: "create_features_xgb two_row_table TARGET_COLUMN = Inr f" by blast
  have l0: "(0::nat) < length [two_row_table]" by simp
  note w1 = create_features_xgb_is_pure[OF l0 l0 refl c1 c1]
  from w1 have t1: "take 1 h1' = [two_row_table]" and n1: "length h1' = 2"
    and z1: "h1' ! 0 = two_row_table" by simp_all
  from w1 f have "map_sum (\<lambda>e. e) (\<lambda>p. h1' ! p) r1 = Inr f" by simp
  with w1 have r1: "r1 = Inr 1" and f1: "h1' ! 1 = f" by (cases r1; simp)+
  have l1: "(0::nat) < length h1'" using n1 by simp
  have e: "[two_row_table] ! 0 = h1' ! 0" using z1 by simp
  note w2 = create_features_xgb_is_pure[OF l0 l1 e c1 c2]
  note w3 = create_features_xgb_is_pure[OF l1 l1 refl c2 c2]
  from w2 have "map_sum (\<lambda>e. e) (\<lambda>p. h1' ! p) r1 = map_sum (\<lambda>e. e) (\<lambda>p. h2' ! p) r2"
    by blast
  with r1 f1 have m2: "map_sum (\<lambda>e. e) (\<lambda>p. h2' ! p) r2 = Inr f" by simp
  with w3 n1 have r2: "r2 = Inr 2" and f2: "h2' ! 2 = f" by (cases r2; simp)+
  from w3 n1 have t2: "take 2 h2' = h1'" by simp
  have "h2' ! 0 = take 2 h2' ! 0" "h2' ! 1 = take 2 h2' ! 1" by simp_all
  with t2 z1 f1 have z2: "h2' ! 0 = two_row_table" "h2' ! 1 = f" by simp_all
  from c1 c2 r1 r2 z1 z2 f f1 f2 show ?thesis by blast
qed

text \<open>
  Claim C9. A forecast request on the shared historical table \<open>fd\<close> leaves every object
  the store held before the request as it was, the historical table among them: the
  request only allocates new objects (the copied slice, the copies and rows the loop
  makes) and assigns into those. This holds whether the rollout completes or fails, for
  both endpoints, and what the request returns is what the forecast computes from the
  value of the historical table.
\<close>

theorem forecast_leaves_historical_table_unchanged:
  assumes "fd < length h"
      and "get_hourly_forecast_st m (Some fd) h = (r, h')"
      and "get_hourly_forecast_enhanced_st ms (Some fd) h = (r2, h2')"
  shows "take (length h) h' = h \<and> h' ! fd = h ! fd
       \<and> r = get_hourly_forecast m (Some (h ! fd))
       \<and> take (length h) h2' = h \<and> h2' ! fd = h ! fd
       \<and> r2 = get_hourly_forecast_enhanced ms (Some (h ! fd))"
proof -
  from get_hourly_forecast_st_sim[of m fd h] assms(2) obtain ext where
    a: "r = get_hourly_forecast m (Some (h ! fd))" "h' = h @ ext" by auto
  from get_hourly_forecast_enhanced_st_sim[of ms "Some fd" h] assms(3) obtain ext2 where
    b: "r2 = get_hourly_forecast_enhanced ms (Some (h ! fd))" "h2' = h @ ext2" by auto
  from a b assms(1) show ?thesis by (simp add: nth_append)
qed

lemma const_forecast_two_row_table:
  "\<exists>res. get_hourly_forecast (const_models 400) (Some two_row_table) = Inr res
       \<and> get_hourly_forecast_enhanced (Some (const_models 400)) (Some two_row_table) = Inr res
       \<and> length res = 24"
proof -
  have cs: "set FEATURES_LSTM \<subseteq> set (columns two_row_table)"
    by (simp add: FEATURES_LSTM_def columns_def two_row_table_def)
  have ne: "index two_row_table \<noteq> []" by (simp add: two_row_table_def)
  have n: "list_all (\<lambda>(c, xs). xs \<noteq> []) (cols two_row_table)"
    by (simp add: two_row_table_def)
  have t: "last (index two_row_table) + int 24 * ns_per_hour \<le> timestamp_max"
    by (simp add: two_row_table_def ns_per_hour_def timestamp_max_def)
  from rollout_loop_succeeds[OF const_models_respond[of 400] cs ne n t, of "[]"] obtain res where
    res: "rollout_loop (const_models 400) 24 two_row_table [] = Inr res" by blast
  from rollout_loop_Inr[OF res] have "length (map timestamp res) = 24" by auto
  with res show ?thesis
    by (simp add: get_hourly_forecast_def get_hourly_forecast_enhanced_def
        iloc_tail_two_row_table)
qed

lemma fragile_forecast_two_row_table:
  "get_hourly_forecast (fragile_models 400) (Some two_row_table) = Inl (ModelError ''xgboost'')
   \<and> get_hourly_forecast_enhanced (Some (fragile_models 400)) (Some two_row_table)
       = Inl (ModelError ''xgboost'')"
proof -
  have k: "(2::nat) < 24" by simp
  note f = predict_next_fails_step[OF fragile_predict_four_row]
  from rollout_loop_fails[OF k fragile_table_after_two_steps f, of "[]"] show ?thesis
    by (simp add: get_hourly_forecast_def get_hourly_forecast_enhanced_def)
qed

text \<open>The store that holds the two-row sample as its only object. With the models that
  always answer, the request returns 24 results; with the tree regressor that raises, it
  returns the failure. In both cases the object 0 is still the sample.\<close>

theorem forecast_leaves_historical_table_unchanged_witness:
  "\<exists>r h' r2 h2' q k' q2 k2' res.
      get_hourly_forecast_st (const_models 400) (Some 0) [two_row_table] = (r, h')
    \<and> get_hourly_forecast_enhanced_st (Some (const_models 400)) (Some 0) [two_row_table]
        = (r2, h2')
    \<and> r = Inr res \<and> r2 = Inr res \<and> length res = 24
    \<and> h' ! 0 = two_row_table \<and> h2' ! 0 = two_row_table
    \<and> get_hourly_forecast_st (fragile_models 400) (Some 0) [two_row_table] = (q, k')
    \<and> get_hourly_forecast_enhanced_st (Some (fragile_models 400)) (Some 0) [two_row_table]
        = (q2, k2')
    \<and> q = Inl (ModelError ''xgboost'') \<and> q2 = Inl (ModelError ''xgboost'')
    \<and> k' ! 0 = two_row_table \<and> k2' ! 0 = two_row_table"
proof -
  obtain r h' where a: "get_hourly_forecast_st (const_models 400) (Some 0) [two_row_table]
      = (r, h')"
    by (cases "get_hourly_forecast_st (const_models 400) (Some 0) [two_row_table]")
  obtain r2 h2' where b: "get_hourly_forecast_enhanced_st (Some (const_models 400)) (Some 0)
      [two_row_table] = (r2, h2')"
    by (cases "get_hourly_forecast_enhanced_st (Some (const_models 400)) (Some 0)
      [two_row_table]")
  obtain q k' where c: "get_hourly_forecast_st (fragile_models 400) (Some 0) [two_row_table]
      = (q, k')"
    by (cases "get_hourly_forecast_st (fragile_models 400) (Some 0) [two_row_table]")
  obtain q2 k2' where d: "get_hourly_forecast_enhanced_st (Some (fragile_models 400)) (Some 0)
      [two_row_table] = (q2, k2')"
    by (cases "get_hourly_forecast_enhanced_st (Some (fragile_models 400)) (Some 0)
      [two_row_table]")
  have l: "(0::nat) < length [two_row_table]" by simp
  note w1 = forecast_leaves_historical_table_unchanged[OF l a b]
  note w2 = forecast_leaves_historical_table_unchanged[OF l c d]
  from const_forecast_two_row_table obtain res where
    res: "get_hourly_forecast (const_models 400) (Some two_row_table) = Inr res"
    "get_hourly_forecast_enhanced (Some (const_models 400)) (Some two_row_table) = Inr res"
    "length res = 24" by blast
  from w1 res have 1: "r = Inr res" "r2 = Inr res" "h' ! 0 = two_row_table"
    "h2' ! 0 = two_row_table" by simp_all
  from w2 fragile_forecast_two_row_table have 2: "q = Inl (ModelError ''xgboost'')"
    "q2 = Inl (ModelError ''xgboost'')" "k' ! 0 = two_row_table" "k2' ! 0 = two_row_table"
    by simp_all
  from a b c d 1 2 res(3) show ?thesis by blast
qed

end
